theory Spec2Isabelle
  imports Complex_Main "HOL-Library.Word"
begin

section \<open>JavaScript strings\<close>

text \<open>
  A JavaScript string is a sequence of UTF-16 code units, and \<open>length\<close>, \<open>slice\<close>,
  \<open>trim\<close> and the regular expressions of the source all count code units.  The
  function \<open>js\<close> turns an ASCII literal into its code units.
\<close>

type_synonym code_unit = "16 word"
type_synonym jsstring = "code_unit list"

definition js :: "string \<Rightarrow> jsstring" where
  "js s = map (\<lambda>c. of_char c) s"

definition LF :: code_unit where
  "LF = 0x0A"

text \<open>
  The class \<open>\s\<close> of a regular expression and the characters removed by
  \<open>String.prototype.trim\<close> are the same set: WhiteSpace and LineTerminator of ECMAScript.
\<close>

definition is_space :: "code_unit \<Rightarrow> bool" where
  "is_space c \<longleftrightarrow>
     (0x09 \<le> c \<and> c \<le> 0x0D) \<or> c = 0x20 \<or> c = 0xA0 \<or> c = 0x1680 \<or>
     (0x2000 \<le> c \<and> c \<le> 0x200A) \<or> c = 0x2028 \<or> c = 0x2029 \<or> c = 0x202F \<or>
     c = 0x205F \<or> c = 0x3000 \<or> c = 0xFEFF"

definition trim :: "jsstring \<Rightarrow> jsstring" where
  "trim s = rev (dropWhile is_space (rev (dropWhile is_space s)))"

text \<open>
  \<open>s.slice(-n)\<close> for a count \<open>n\<close>: the last \<open>n\<close> code units, the whole string when it
  is shorter.  \<open>-0\<close> is \<open>0\<close>, so \<open>s.slice(-0)\<close> is \<open>s.slice(0)\<close>, the whole string.
\<close>

definition slice_last :: "nat \<Rightarrow> jsstring \<Rightarrow> jsstring" where
  "slice_last n s = (if n = 0 then s else drop (length s - n) s)"

subsection \<open>Splitting on blank lines\<close>

text \<open>
  \<open>match_sep s\<close> is the length of the match of \<open>/\n\s*\n/\<close> anchored at the start of
  \<open>s\<close>, if there is one.  The star is greedy and \<open>\s\<close> contains the line feed: the match
  is the first line feed followed by the run of white space after it, cut back to
  the last line feed of that run.
\<close>

definition match_sep :: "jsstring \<Rightarrow> nat option" where
  "match_sep s =
     (case s of
        [] \<Rightarrow> None
      | c # cs \<Rightarrow>
          if c \<noteq> LF then None
          else (let m = rev (dropWhile (\<lambda>d. d \<noteq> LF) (rev (takeWhile is_space cs)))
                in if m = [] then None else Some (Suc (length m))))"

text \<open>
  \<open>String.prototype.split\<close> with a regular expression that never matches the empty
  string: \<open>cur\<close> is the piece collected since the end of the last match (the code
  units from \<open>p\<close> to \<open>q\<close> of the standard's loop) and the third argument is the rest of
  the string from \<open>q\<close> on.  The piece after the last match is always emitted.
\<close>

function split_from :: "jsstring \<Rightarrow> jsstring \<Rightarrow> jsstring list" where
  "split_from cur [] = [cur]"
| "split_from cur (c # cs) =
     (case match_sep (c # cs) of
        Some n \<Rightarrow> cur # split_from [] (drop n (c # cs))
      | None \<Rightarrow> split_from (cur @ [c]) cs)"
  by pat_completeness auto
termination
  by (relation "measure (\<lambda>(cur, s). length s)")
     (auto simp: match_sep_def Let_def split: if_splits)

definition split_paragraphs :: "jsstring \<Rightarrow> jsstring list" where
  "split_paragraphs text = split_from [] text"

section \<open>Document processor\<close>

subsection \<open>splitTextIntoChunks\<close>

type_synonym uuid = jsstring

record 'm chunk =
  chunk_id :: uuid
  content :: jsstring
  metadata :: 'm

text \<open>
  One round of the loop over the paragraphs.  The state is the array \<open>chunks\<close> and
  the buffer \<open>currentChunk\<close>.  \<open>uuidv4\<close> is random: the argument \<open>uuidv4\<close> gives the value
  of its \<open>k\<close>-th call within this call of \<open>splitTextIntoChunks\<close>, and the \<open>k\<close>-th call
  is the one that builds the \<open>k\<close>-th chunk.
\<close>

definition chunk_step ::
  "nat \<Rightarrow> nat \<Rightarrow> 'm \<Rightarrow> (nat \<Rightarrow> uuid) \<Rightarrow> 'm chunk list \<times> jsstring \<Rightarrow> jsstring
     \<Rightarrow> 'm chunk list \<times> jsstring" where
  "chunk_step chunkSize overlap md uuidv4 st paragraph =
     (case st of (chunks, currentChunk) \<Rightarrow>
        if length currentChunk + length paragraph > chunkSize \<and> length currentChunk > 0
        then
          (chunks @ [\<lparr>chunk_id = uuidv4 (length chunks), content = trim currentChunk,
                      metadata = md\<rparr>],
           (if length currentChunk > overlap then slice_last overlap currentChunk
            else currentChunk) @ js '' '' @ paragraph)
        else
          (chunks,
           currentChunk @ ((if currentChunk \<noteq> [] then js ''\<newline>\<newline>'' else []) @ paragraph)))"

definition splitTextIntoChunks ::
  "jsstring \<Rightarrow> nat \<Rightarrow> nat \<Rightarrow> 'm \<Rightarrow> (nat \<Rightarrow> uuid) \<Rightarrow> 'm chunk list" where
  "splitTextIntoChunks text chunkSize overlap md uuidv4 =
     (if text = [] then []
      else
        (case foldl (chunk_step chunkSize overlap md uuidv4) ([], []) (split_paragraphs text) of
           (chunks, currentChunk) \<Rightarrow>
             if length (trim currentChunk) > 0
             then chunks @ [\<lparr>chunk_id = uuidv4 (length chunks), content = trim currentChunk,
                              metadata = md\<rparr>]
             else chunks))"

text \<open>
  The accumulated buffer when no chunk is closed on the way: the paragraphs, with a
  blank line before every paragraph that is added to a non-empty buffer.
\<close>

definition join_paragraphs :: "jsstring list \<Rightarrow> jsstring" where
  "join_paragraphs ps =
     foldl (\<lambda>cur p. cur @ ((if cur \<noteq> [] then js ''\<newline>\<newline>'' else []) @ p)) [] ps"

subsection \<open>Numbers, faults and promises\<close>

text \<open>
  Numbers are IEEE 754 doubles.  A finite double is the real number it denotes, and
  an arithmetic operation on finite doubles is the exact operation followed by the
  rounding to the nearest double, ties to the even significand.  A double has a
  significand of 53 bits: the doubles from \<open>2 ^ e\<close> up to \<open>2 ^ (e + 1)\<close> are the
  multiples of \<open>2 ^ (e - 52)\<close>, and those below \<open>2 ^ (- 1022)\<close> are the multiples of
  \<open>2 ^ (- 1074)\<close>.  Overflow to an infinity needs a result of about \<open>2 ^ 1024\<close> and is
  not part of \<open>round_double\<close>: the operations below start from values of
  \<open>Math.random()\<close>, which lie between 0 and 1.  The sign of a zero is not
  represented.  A division by zero gives \<open>NaN\<close> or an infinity.
\<close>

definition round_half_even :: "real \<Rightarrow> int" where
  "round_half_even q =
     (let f = \<lfloor>q\<rfloor>; d = q - of_int f
      in if d < 1 / 2 then f
         else if 1 / 2 < d then f + 1
         else if even f then f else f + 1)"

definition round_double :: "real \<Rightarrow> real" where
  "round_double x =
     (if x = 0 then 0
      else
        (let e = max \<lfloor>log 2 \<bar>x\<bar>\<rfloor> (- 1022);
             ulp = 2 powi (e - 52)
         in of_int (round_half_even (x / ulp)) * ulp))"

datatype jsnum = Finite real | PlusInfinity | MinusInfinity | NaN

definition js_div :: "real \<Rightarrow> real \<Rightarrow> jsnum" where
  "js_div x y =
     (if y \<noteq> 0 then Finite (round_double (x / y))
      else if x = 0 then NaN
      else if 0 < x then PlusInfinity else MinusInfinity)"

type_synonym vector = "jsnum list"

datatype error = Error (message: jsstring)

text \<open>
  How a promise of an external service settles: it fulfils with a value, rejects
  with an error, or is still pending when the timer it is raced against fires.
\<close>

datatype 'a settled = Fulfilled 'a | Rejected error | Pending

fun decimal :: "nat \<Rightarrow> jsstring" where
  "decimal n =
     (if n < 10 then [of_nat (48 + n)] else decimal (n div 10) @ [of_nat (48 + n mod 10)])"

text \<open>
  \<open>Promise.race([promise, timeoutPromise])\<close> followed by \<open>await\<close>: the value, or the
  fault that the enclosing \<open>try\<close> catches.  The timer rejects with the message
  \<open>what\<close> \<open>timed out after\<close> \<open>timeoutMs\<close>\<open>ms\<close>.
\<close>

definition race_timeout :: "'a settled \<Rightarrow> jsstring \<Rightarrow> nat \<Rightarrow> error + 'a" where
  "race_timeout promise what timeoutMs =
     (case promise of
        Fulfilled v \<Rightarrow> Inr v
      | Rejected e \<Rightarrow> Inl e
      | Pending \<Rightarrow> Inl (Error (what @ js '' timed out after '' @ decimal timeoutMs @ js ''ms'')))"

text \<open>
  The values a JSON request body can give the field \<open>query\<close>, and \<open>undefined\<close> for a
  field that is absent.  Arrays are objects and are not told apart here.
\<close>

datatype jsvalue = Undefined | Null | Boolean bool | Number real | String jsstring | Object

definition truthy :: "jsvalue \<Rightarrow> bool" where
  "truthy v =
     (case v of
        Undefined \<Rightarrow> False
      | Null \<Rightarrow> False
      | Boolean b \<Rightarrow> b
      | Number r \<Rightarrow> r \<noteq> 0
      | String s \<Rightarrow> s \<noteq> []
      | Object \<Rightarrow> True)"

subsection \<open>The world outside the process\<close>

record doc_metadata =
  source_file :: jsstring
  file_type :: jsstring
  created_at :: jsstring
  document_id :: uuid

record 'm embedded_chunk = "'m chunk" +
  embedding :: vector
  embeddingError :: "jsstring option"

record payload =
  original_id :: "jsstring option"
  payload_content :: "jsstring option"
  payload_source_file :: "jsstring option"
  payload_file_type :: "jsstring option"
  payload_created_at :: "jsstring option"
  payload_document_id :: "jsstring option"

record point =
  point_id :: uuid
  point_vector :: vector
  point_payload :: payload

record scored_point =
  hit_id :: uuid
  hit_payload :: "payload option"
  hit_score :: real

record collection_info =
  vectors_count :: "nat option"

text \<open>
  Everything the code obtains from outside during one request: the random sources,
  the clock, the file system and the three network services.  Each field says how
  the corresponding call answers; the code under verification decides which calls
  are made and what is done with the answers.

  \<^item> \<open>openai\<close>: whether the module-level client is not \<open>null\<close>, that is whether
    \<open>OPENAI_API_KEY\<close> was set when the module was loaded.
  \<^item> \<open>createEmbedding w k input a\<close>: how the request of attempt \<open>a\<close> of the \<open>k\<close>-th call
    of \<open>generateEmbedding\<close> settles, read at \<open>response.data.data[0].embedding\<close>; a
    response on which that access throws counts as a rejection, since both end in
    the same \<open>catch\<close>.
  \<^item> \<open>random w k i\<close>: the \<open>i\<close>-th value of \<open>Math.random()\<close> drawn for the mock
    embedding of the \<open>k\<close>-th call.
  \<^item> \<open>createChatCompletion\<close>: the completion request, read at
    \<open>response.data.choices[0].message.content\<close>.
\<close>

record world =
  openai :: bool
  createEmbedding :: "nat \<Rightarrow> jsstring \<Rightarrow> nat \<Rightarrow> vector settled"
  random :: "nat \<Rightarrow> nat \<Rightarrow> real"
  uuidv4_chunk :: "nat \<Rightarrow> uuid"
  uuidv4_document :: uuid
  uuidv4_point :: "nat \<Rightarrow> uuid"
  clock :: "nat \<Rightarrow> jsstring"
  read_pdf :: "jsstring \<Rightarrow> error + jsstring"
  read_docx :: "jsstring \<Rightarrow> error + jsstring"
  unlink_fault :: "error option"
  initialized :: bool
  getCollections :: "error + jsstring list"
  client_createCollection :: "jsstring \<Rightarrow> error + unit"
  client_upsert :: "jsstring \<Rightarrow> nat \<Rightarrow> point list \<Rightarrow> error + unit"
  client_search :: "jsstring \<Rightarrow> vector \<Rightarrow> nat \<Rightarrow> real \<Rightarrow> scored_point list settled"
  client_getCollection :: "jsstring \<Rightarrow> error + collection_info"
  createChatCompletion :: "(jsstring \<times> jsstring) list \<Rightarrow> jsstring settled"
  number_to_string :: "real \<Rightarrow> jsstring"

subsection \<open>extractTextFromFile\<close>

definition SLASH :: code_unit where
  "SLASH = 0x2F"

definition DOT :: code_unit where
  "DOT = 0x2E"

text \<open>\<open>path.basename\<close> and \<open>path.extname\<close> of Node, for POSIX paths.\<close>

definition basename :: "jsstring \<Rightarrow> jsstring" where
  "basename p = rev (takeWhile (\<lambda>c. c \<noteq> SLASH) (dropWhile (\<lambda>c. c = SLASH) (rev p)))"

definition extname :: "jsstring \<Rightarrow> jsstring" where
  "extname p =
     (let base = basename p;
          ext = rev (takeWhile (\<lambda>c. c \<noteq> DOT) (rev base))
      in if DOT \<notin> set base then []
         else if length ext + 1 = length base then []
         else if base = [DOT, DOT] then []
         else DOT # ext)"

text \<open>
  The files are read and parsed by \<open>fs.readFile\<close> with \<open>pdf-parse\<close> or \<open>mammoth\<close>;
  \<open>read_pdf\<close> and \<open>read_docx\<close> give the text, or the fault of whichever step failed.
  Every fault is caught here and replaced by a placeholder text.
\<close>

definition extractTextFromFile :: "world \<Rightarrow> jsstring \<Rightarrow> jsstring \<Rightarrow> jsstring" where
  "extractTextFromFile w filePath fileType =
     (case (if fileType = js ''pdf'' then read_pdf w filePath
            else if fileType = js ''docx'' then read_docx w filePath
            else if fileType = js ''image'' then Inr (js ''[Image: '' @ basename filePath @ js '']'')
            else if fileType = js ''ppt'' then Inr (js ''[PowerPoint: '' @ basename filePath @ js '']'')
            else Inr (js ''[Unsupported file type: '' @ fileType @ js '']''))
      of Inr text \<Rightarrow> text
       | Inl error \<Rightarrow> js ''[Error extracting content from file: '' @ basename filePath @ js '']'')"

subsection \<open>generateMockEmbedding\<close>

text \<open>
  \<open>rnd i\<close> is the \<open>i\<close>-th value of \<open>Math.random()\<close>.  Every product, difference, sum,
  square root and quotient is rounded to a double.
\<close>

definition generateMockEmbedding :: "nat \<Rightarrow> (nat \<Rightarrow> real) \<Rightarrow> vector" where
  "generateMockEmbedding dimensions rnd =
     (let embedding = map (\<lambda>i. round_double (round_double (rnd i * 2) - 1)) [0..<dimensions];
          magnitude =
            round_double
              (sqrt (foldl (\<lambda>sum val. round_double (sum + round_double (val * val))) 0 embedding))
      in map (\<lambda>val. js_div val magnitude) embedding)"



subsection \<open>generateEmbedding\<close>

text \<open>\<open>s.replace(/\n+/g, ' ')\<close>: one space for every maximal run of line feeds.\<close>

fun collapse_newlines :: "jsstring \<Rightarrow> jsstring" where
  "collapse_newlines [] = []"
| "collapse_newlines (c # cs) =
     (if c = LF \<and> cs \<noteq> [] \<and> hd cs = LF then collapse_newlines cs
      else if c = LF then 0x20 # collapse_newlines cs
      else c # collapse_newlines cs)"

text \<open>
  \<open>generateEmbedding\<close> is modelled for a text that is a string, as its documentation
  says and as \<open>processFile\<close> calls it.  The input sent to the provider is
  \<open>text.trim().replace(/\n+/g, ' ').slice(0, 8000)\<close>.
\<close>

definition embedding_input :: "jsstring \<Rightarrow> jsstring" where
  "embedding_input text = take 8000 (collapse_newlines (trim text))"

text \<open>
  The body of the \<open>try\<close> of one attempt: the embedding it returns, or the fault it
  throws.  The request and the timer are raced, so that the rejection of either has
  a handler.
\<close>

definition embedding_attempt ::
  "world \<Rightarrow> nat \<Rightarrow> jsstring \<Rightarrow> nat \<Rightarrow> nat \<Rightarrow> error + vector" where
  "embedding_attempt w k text timeoutMs attempt =
     (if \<not> openai w then Inr (generateMockEmbedding 1536 (random w k))
      else
        race_timeout (createEmbedding w k (embedding_input text) attempt)
          (js ''Embedding request'') timeoutMs)"

text \<open>
  The loop \<open>for (attempt = 1; attempt <= retries; attempt++)\<close>.  Between two attempts
  the code sleeps (one or two seconds, doubled at every attempt, at most 15 seconds);
  the sleep changes no value.  The result is a sum so that a fault leaving the
  function would be a value \<open>Inl\<close>.
\<close>

function attempt_loop ::
  "world \<Rightarrow> nat \<Rightarrow> jsstring \<Rightarrow> nat \<Rightarrow> nat \<Rightarrow> nat \<Rightarrow> error + vector" where
  "attempt_loop w k text retries timeoutMs attempt =
     (if attempt \<le> retries then
        (case embedding_attempt w k text timeoutMs attempt of
           Inr v \<Rightarrow> Inr v
         | Inl error \<Rightarrow>
             if attempt = retries then Inr (generateMockEmbedding 1536 (random w k))
             else attempt_loop w k text retries timeoutMs (attempt + 1))
      else Inr (generateMockEmbedding 1536 (random w k)))"
  by pat_completeness auto
termination
  by (relation "measure (\<lambda>(w, k, text, retries, timeoutMs, attempt). Suc retries - attempt)") auto

declare attempt_loop.simps [simp del]

definition generateEmbedding ::
  "world \<Rightarrow> nat \<Rightarrow> jsstring \<Rightarrow> nat \<Rightarrow> nat \<Rightarrow> error + vector" where
  "generateEmbedding w k text retries timeoutMs = attempt_loop w k text retries timeoutMs 1"

subsection \<open>processFile\<close>

text \<open>\<open>xs.slice(a, b)\<close> for counts \<open>a\<close> and \<open>b\<close>.\<close>

definition slice :: "'a list \<Rightarrow> nat \<Rightarrow> nat \<Rightarrow> 'a list" where
  "slice xs a b = take (min b (length xs) - a) (drop a xs)"

text \<open>
  The function mapped over a batch: the chunk number \<open>n\<close> (from 0) with its
  embedding, or with a mock embedding and the message when \<open>generateEmbedding\<close> throws.
\<close>

definition embed_chunk :: "world \<Rightarrow> nat \<Rightarrow> 'm chunk \<Rightarrow> 'm embedded_chunk" where
  "embed_chunk w n c =
     (case generateEmbedding w n (content c) 3 10000 of
        Inr e \<Rightarrow> chunk.extend c (embedded_chunk.fields e None)
      | Inl error \<Rightarrow>
          chunk.extend c
            (embedded_chunk.fields (generateMockEmbedding 1536 (random w n)) (Some (message error))))"

text \<open>
  The loop over the batches of \<open>BATCH_SIZE = 5\<close> chunks.  \<open>Promise.all\<close> returns the
  results of a batch in the order of the batch.
\<close>

function embed_batches ::
  "world \<Rightarrow> 'm chunk list \<Rightarrow> nat \<Rightarrow> 'm embedded_chunk list \<Rightarrow> 'm embedded_chunk list" where
  "embed_batches w chunks i chunksWithEmbeddings =
     (if i < length chunks then
        (let batch = slice chunks i (min (i + 5) (length chunks));
             batchResults = map (\<lambda>(index, c). embed_chunk w (i + index) c)
                              (zip [0..<length batch] batch)
         in embed_batches w chunks (i + 5) (chunksWithEmbeddings @ batchResults))
      else chunksWithEmbeddings)"
  by pat_completeness auto
termination
  by (relation "measure (\<lambda>(w, chunks, i, acc). length chunks - i)") auto

declare embed_batches.simps [simp del]

definition processFile ::
  "world \<Rightarrow> jsstring \<Rightarrow> jsstring \<Rightarrow> 'm \<Rightarrow> nat \<Rightarrow> error + 'm embedded_chunk list" where
  "processFile w filePath fileType md maxChunks =
     (let text = extractTextFromFile w filePath fileType;
          chunks = splitTextIntoChunks text 1000 200 md (uuidv4_chunk w);
          chunks = (if length chunks > maxChunks then slice chunks 0 maxChunks else chunks)
      in Inr (embed_batches w chunks 0 []))"

section \<open>Vector store\<close>

datatype create_result =
  CreateResult (created: bool) (existed: bool)
| CreateFailure jsstring

definition createCollection :: "world \<Rightarrow> jsstring \<Rightarrow> create_result" where
  "createCollection w collectionName =
     (case getCollections w of
        Inl error \<Rightarrow> CreateFailure (message error)
      | Inr collections \<Rightarrow>
          if collectionName \<notin> set collections then
            (case client_createCollection w collectionName of
               Inl error \<Rightarrow> CreateFailure (message error)
             | Inr u \<Rightarrow> CreateResult True False)
          else CreateResult False True)"

text \<open>
  The test of \<open>generatePointId\<close>,
  \<open>/^[0-9a-f]{8}-[0-9a-f]{4}-[1-5][0-9a-f]{3}-[89ab][0-9a-f]{3}-[0-9a-f]{12}$/i\<close>.
\<close>

definition is_hex :: "code_unit \<Rightarrow> bool" where
  "is_hex c \<longleftrightarrow>
     (0x30 \<le> c \<and> c \<le> 0x39) \<or> (0x61 \<le> c \<and> c \<le> 0x66) \<or> (0x41 \<le> c \<and> c \<le> 0x46)"

definition is_uuid :: "jsstring \<Rightarrow> bool" where
  "is_uuid s \<longleftrightarrow>
     length s = 36 \<and>
     list_all is_hex (slice s 0 8) \<and> s ! 8 = 0x2D \<and>
     list_all is_hex (slice s 9 13) \<and> s ! 13 = 0x2D \<and>
     0x31 \<le> s ! 14 \<and> s ! 14 \<le> 0x35 \<and>
     list_all is_hex (slice s 15 18) \<and> s ! 18 = 0x2D \<and>
     s ! 19 \<in> {0x38, 0x39, 0x61, 0x62, 0x41, 0x42} \<and>
     list_all is_hex (slice s 20 23) \<and> s ! 23 = 0x2D \<and>
     list_all is_hex (slice s 24 36)"

definition generatePointId :: "world \<Rightarrow> nat \<Rightarrow> uuid \<Rightarrow> uuid" where
  "generatePointId w n ident = (if is_uuid ident then ident else uuidv4_point w n)"

datatype add_result =
  AddResult (documentsAdded: nat) (collectionWasCreated: bool) (collectionAlreadyExisted: bool)
| AddFailure jsstring

definition to_point :: "world \<Rightarrow> nat \<Rightarrow> doc_metadata embedded_chunk \<Rightarrow> point" where
  "to_point w n doc =
     \<lparr>point_id = generatePointId w n (chunk_id doc),
      point_vector = embedding doc,
      point_payload =
        \<lparr>original_id = Some (chunk_id doc),
         payload_content = Some (content doc),
         payload_source_file = Some (source_file (metadata doc)),
         payload_file_type = Some (file_type (metadata doc)),
         payload_created_at = Some (created_at (metadata doc)),
         payload_document_id = Some (document_id (metadata doc))\<rparr>\<rparr>"

text \<open>
  The loop that sends the points in batches of 100; the first batch that fails ends
  it with the fault.
\<close>

function upsert_batches :: "world \<Rightarrow> jsstring \<Rightarrow> point list \<Rightarrow> nat \<Rightarrow> error + unit" where
  "upsert_batches w collectionName points i =
     (if i < length points then
        (case client_upsert w collectionName i (slice points i (i + 100)) of
           Inl error \<Rightarrow> Inl error
         | Inr u \<Rightarrow> upsert_batches w collectionName points (i + 100))
      else Inr ())"
  by pat_completeness auto
termination
  by (relation "measure (\<lambda>(w, collectionName, points, i). length points - i)") auto

declare upsert_batches.simps [simp del]

definition addDocuments ::
  "world \<Rightarrow> jsstring \<Rightarrow> doc_metadata embedded_chunk list \<Rightarrow> add_result" where
  "addDocuments w collectionName documents =
     (case createCollection w collectionName of
        CreateFailure err \<Rightarrow> AddFailure (js ''Failed to create collection: '' @ err)
      | CreateResult wasCreated alreadyExisted \<Rightarrow>
          (let points = map (\<lambda>(n, doc). to_point w n doc) (zip [0..<length documents] documents)
           in case upsert_batches w collectionName points 0 of
                Inl error \<Rightarrow> AddFailure (message error)
              | Inr u \<Rightarrow> AddResult (length documents) wasCreated alreadyExisted))"

record search_result =
  sr_id :: uuid
  sr_content :: "jsstring option"
  sr_metadata :: payload
  sr_score :: real

text \<open>
  The function mapped over the hits.  A hit without payload makes the access
  \<open>result.payload.original_id\<close> throw.  \<open>a || b\<close> takes \<open>b\<close> when \<open>a\<close> is absent or
  the empty string.
\<close>

definition or_else :: "jsstring option \<Rightarrow> jsstring \<Rightarrow> jsstring" where
  "or_else a b = (case a of None \<Rightarrow> b | Some s \<Rightarrow> if s \<noteq> [] then s else b)"

definition transform_hit :: "scored_point \<Rightarrow> error + search_result" where
  "transform_hit r =
     (case hit_payload r of
        None \<Rightarrow>
          Inl (Error (js ''Cannot read properties of undefined (reading 'original_id')''))
      | Some p \<Rightarrow>
          Inr \<lparr>sr_id = or_else (original_id p) (hit_id r),
               sr_content = payload_content p,
               sr_metadata = p\<lparr>payload_content := None\<rparr>,
               sr_score = hit_score r\<rparr>)"

fun map_result :: "('a \<Rightarrow> error + 'b) \<Rightarrow> 'a list \<Rightarrow> error + 'b list" where
  "map_result f [] = Inr []"
| "map_result f (x # xs) =
     (case f x of
        Inl e \<Rightarrow> Inl e
      | Inr y \<Rightarrow> (case map_result f xs of Inl e \<Rightarrow> Inl e | Inr ys \<Rightarrow> Inr (y # ys)))"

text \<open>The body of the \<open>try\<close> of \<open>search\<close>.\<close>

definition search_body ::
  "world \<Rightarrow> jsstring \<Rightarrow> vector \<Rightarrow> nat \<Rightarrow> real \<Rightarrow> nat \<Rightarrow> error + search_result list" where
  "search_body w collectionName queryEmbedding limit minScore timeoutMs =
     (case getCollections w of
        Inl error \<Rightarrow> Inl error
      | Inr collections \<Rightarrow>
          if collectionName \<notin> set collections then Inr []
          else
            (case race_timeout (client_search w collectionName queryEmbedding limit minScore)
                    (js ''Search operation'') timeoutMs of
               Inl error \<Rightarrow> Inl error
             | Inr searchResult \<Rightarrow> map_result transform_hit searchResult))"

definition search ::
  "world \<Rightarrow> jsstring \<Rightarrow> vector \<Rightarrow> nat \<Rightarrow> real \<Rightarrow> nat \<Rightarrow> error + search_result list" where
  "search w collectionName queryEmbedding limit minScore timeoutMs =
     (case search_body w collectionName queryEmbedding limit minScore timeoutMs of
        Inr results \<Rightarrow> Inr results
      | Inl error \<Rightarrow> Inr [])"

definition getCollection :: "world \<Rightarrow> jsstring \<Rightarrow> collection_info option" where
  "getCollection w collectionName =
     (case client_getCollection w collectionName of
        Inr info \<Rightarrow> Some info
      | Inl error \<Rightarrow> None)"

section \<open>Content generator\<close>

definition defaultSystemPrompt :: jsstring where
  "defaultSystemPrompt =
     js ''You are a helpful assistant that answers questions based on the context provided. '' @
     js ''Your job is to provide accurate, helpful information from the context. '' @
     js ''If the context doesn't contain information to answer the question, say '' @
     [0x22] @ js ''I don't have enough information to answer this question.'' @ [0x22] @ js '' '' @
     js ''Do not make up information or use knowledge outside of the provided context.''"

text \<open>\<open>s.split(/[.!?]+/)\<close>: the pieces between the maximal runs of sentence marks.\<close>

definition is_sentence_mark :: "code_unit \<Rightarrow> bool" where
  "is_sentence_mark c \<longleftrightarrow> c = 0x2E \<or> c = 0x21 \<or> c = 0x3F"

function split_sentences_from :: "jsstring \<Rightarrow> jsstring \<Rightarrow> jsstring list" where
  "split_sentences_from cur [] = [cur]"
| "split_sentences_from cur (c # cs) =
     (if is_sentence_mark c
      then cur # split_sentences_from [] (dropWhile is_sentence_mark cs)
      else split_sentences_from (cur @ [c]) cs)"
  by pat_completeness auto
termination
  by (relation "measure (\<lambda>(cur, s). length s)") (auto simp: length_dropWhile_le less_Suc_eq_le)

text \<open>\<open>xs.join(sep)\<close> for an array of strings.\<close>

fun join_with :: "jsstring \<Rightarrow> jsstring list \<Rightarrow> jsstring" where
  "join_with sep [] = []"
| "join_with sep [x] = x"
| "join_with sep (x # y # ys) = x @ sep @ join_with sep (y # ys)"

text \<open>
  The sample taken from one context.  A context without content makes
  \<open>ctx.content.split\<close> throw.
\<close>

definition context_sample :: "search_result \<Rightarrow> error + jsstring" where
  "context_sample ctx =
     (case sr_content ctx of
        None \<Rightarrow> Inl (Error (js ''Cannot read properties of undefined (reading 'split')''))
      | Some c \<Rightarrow>
          (let sentences = filter (\<lambda>s. length (trim s) > 0) (split_sentences_from [] c)
           in Inr (join_with (js ''. '') (slice sentences 0 2) @ js ''.'')))"

definition generateMockResponse :: "search_result list \<Rightarrow> error + jsstring" where
  "generateMockResponse contexts =
     (if length contexts = 0 then
        Inr (js ''I don't have enough information to answer this question as no context was provided.'')
      else
        (case map_result context_sample (slice contexts 0 2) of
           Inl error \<Rightarrow> Inl error
         | Inr contextSamples \<Rightarrow>
             Inr (js ''Based on the information I have, I can tell you that '' @
                  join_with (js '' Furthermore, '') contextSamples @
                  js '' This information is directly based on the context provided. '' @
                  js ''Is there anything specific about this you'd like me to elaborate on?'')))"

text \<open>A value inside a template literal.\<close>

definition to_string :: "world \<Rightarrow> jsvalue \<Rightarrow> jsstring" where
  "to_string w v =
     (case v of
        Undefined \<Rightarrow> js ''undefined''
      | Null \<Rightarrow> js ''null''
      | Boolean b \<Rightarrow> (if b then js ''true'' else js ''false'')
      | Number r \<Rightarrow> number_to_string w r
      | String s \<Rightarrow> s
      | Object \<Rightarrow> js ''[object Object]'')"

definition option_to_string :: "jsstring option \<Rightarrow> jsstring" where
  "option_to_string v = (case v of None \<Rightarrow> js ''undefined'' | Some s \<Rightarrow> s)"

text \<open>The body of the \<open>try\<close> of \<open>generateResponse\<close>, with the default options.\<close>

definition generateResponse_body :: "world \<Rightarrow> jsvalue \<Rightarrow> search_result list \<Rightarrow> error + jsstring" where
  "generateResponse_body w q contexts =
     (if \<not> openai w then generateMockResponse contexts
      else
        (let contextText =
               join_with (js ''\<newline>'')
                 (map (\<lambda>ctx. js ''CONTEXT: '' @ option_to_string (sr_content ctx) @ js ''\<newline>'')
                    contexts);
             messages =
               [(js ''system'', defaultSystemPrompt),
                (js ''user'',
                 contextText @ js ''\<newline>\<newline>QUESTION: '' @ to_string w q @
                 js ''\<newline>\<newline>Please provide a response based on the above context.'')]
         in case race_timeout (createChatCompletion w messages) (js ''LLM request'') 30000 of
              Inl error \<Rightarrow> Inl error
            | Inr text \<Rightarrow> Inr (trim text)))"

definition generateResponse :: "world \<Rightarrow> jsvalue \<Rightarrow> search_result list \<Rightarrow> error + jsstring" where
  "generateResponse w q contexts =
     (case generateResponse_body w q contexts of
        Inr generatedText \<Rightarrow> Inr generatedText
      | Inl error \<Rightarrow> generateMockResponse contexts)"

section \<open>RAG service\<close>

definition GLOBAL_COLLECTION_NAME :: jsstring where
  "GLOBAL_COLLECTION_NAME = js ''global_documents''"

record indexed_document =
  documentId :: uuid
  chunksCount :: nat
  filename :: jsstring
  fileType :: jsstring
  createdAt :: jsstring

text \<open>
  The state of the process and of the upload directory: the map \<open>indexedDocuments\<close>
  in insertion order, and the paths of the files that exist.
\<close>

record state =
  indexedDocuments :: "(uuid \<times> indexed_document) list"
  files :: "jsstring set"

text \<open>
  \<open>Map.prototype.set\<close>: the value of an existing key is replaced where it stands, a
  new key goes to the end.
\<close>

fun map_set :: "'k \<Rightarrow> 'v \<Rightarrow> ('k \<times> 'v) list \<Rightarrow> ('k \<times> 'v) list" where
  "map_set k v [] = [(k, v)]"
| "map_set k v ((k', v') # kvs) = (if k' = k then (k, v) # kvs else (k', v') # map_set k v kvs)"

text \<open>
  \<open>fs.unlink\<close>: it fails on a file that does not exist, or with the fault the
  operating system reports (\<open>unlink_fault\<close>); otherwise the file is gone.
\<close>

definition unlinkAsync :: "world \<Rightarrow> jsstring \<Rightarrow> jsstring set \<Rightarrow> error + jsstring set" where
  "unlinkAsync w p fs =
     (if p \<notin> fs then Inl (Error (js ''ENOENT: no such file or directory, unlink''))
      else (case unlink_fault w of Some e \<Rightarrow> Inl e | None \<Rightarrow> Inr (fs - {p})))"

record uploaded_file =
  originalname :: jsstring
  path :: jsstring

text \<open>\<open>toLowerCase\<close> on the letters A to Z; no other character becomes one of a to z
  that occurs in the extensions compared below.\<close>

definition to_lower :: "jsstring \<Rightarrow> jsstring" where
  "to_lower s = map (\<lambda>c. if 0x41 \<le> c \<and> c \<le> 0x5A then c + 0x20 else c) s"

definition file_type_of :: "jsstring \<Rightarrow> jsstring" where
  "file_type_of fileExtension =
     (if fileExtension = js ''pdf'' then js ''pdf''
      else if fileExtension = js ''docx'' \<or> fileExtension = js ''doc'' then js ''docx''
      else if fileExtension = js ''jpg'' \<or> fileExtension = js ''jpeg'' \<or> fileExtension = js ''png''
        then js ''image''
      else if fileExtension = js ''ppt'' \<or> fileExtension = js ''pptx'' then js ''ppt''
      else if fileExtension = js ''txt'' then js ''text''
      else js ''text'')"

datatype index_result =
  IndexSuccess (result_documentId: uuid) (result_collectionName: jsstring)
    (result_documentCount: nat) (result_filename: jsstring)
| IndexFailure jsstring

text \<open>
  What \<open>indexDocument\<close> does once \<open>processFile\<close> has returned or thrown: the rest of
  the \<open>try\<close>, and the \<open>catch\<close>.  The result of \<open>addDocuments\<close> is bound to
  \<open>storeResult\<close> and not read again.
\<close>

definition index_processed ::
  "world \<Rightarrow> state \<Rightarrow> uploaded_file \<Rightarrow> jsstring \<Rightarrow> uuid
     \<Rightarrow> error + doc_metadata embedded_chunk list \<Rightarrow> state \<times> index_result" where
  "index_processed w st file ftype docId processed =
     (case processed of
        Inl error \<Rightarrow> (st, IndexFailure (message error))
      | Inr processedDocuments \<Rightarrow>
          (let storeResult = addDocuments w GLOBAL_COLLECTION_NAME processedDocuments;
               st = (case unlinkAsync w (path file) (files st) of
                       Inr remaining \<Rightarrow> st\<lparr>files := remaining\<rparr>
                     | Inl err \<Rightarrow> st);
               st = st\<lparr>indexedDocuments :=
                      map_set docId
                        \<lparr>documentId = docId,
                         chunksCount = length processedDocuments,
                         filename = originalname file,
                         fileType = ftype,
                         createdAt = clock w 1\<rparr>
                        (indexedDocuments st)\<rparr>
           in (st, IndexSuccess docId GLOBAL_COLLECTION_NAME (length processedDocuments)
                     (originalname file))))"

definition indexDocument :: "world \<Rightarrow> state \<Rightarrow> uploaded_file \<Rightarrow> state \<times> index_result" where
  "indexDocument w st file =
     (let fileExtension = drop 1 (to_lower (extname (originalname file)));
          ftype = file_type_of fileExtension;
          docId = uuidv4_document w;
          md = \<lparr>source_file = originalname file, file_type = ftype, created_at = clock w 0,
                document_id = docId\<rparr>
      in index_processed w st file ftype docId (processFile w (path file) ftype md 25))"

record chat_context =
  context_content :: "jsstring option"
  context_score :: real
  context_source :: jsstring

datatype chat_result =
  ChatSuccess jsvalue jsstring "chat_context list"
| ChatFailure jsvalue jsstring jsstring

definition to_context :: "search_result \<Rightarrow> chat_context" where
  "to_context doc =
     \<lparr>context_content = sr_content doc,
      context_score = sr_score doc,
      context_source = or_else (payload_source_file (sr_metadata doc)) (js ''Unknown'')\<rparr>"

text \<open>
  The call \<open>generateEmbedding(query)\<close> of \<open>generateChatResponse\<close>, with the default 3
  retries and 10000 ms; it is call 0 of the request.  The result is what the call
  resolves to, and the number of timers it leaves behind without a handler.

  For a query that is not a string and without provider, the first attempt returns
  the mock embedding before the text is looked at.  With a provider each of the
  three attempts creates its timer and then throws a \<open>TypeError\<close> at \<open>text.trim()\<close>,
  before the timer is raced; the third attempt returns the mock embedding, three
  seconds after the first.  The three timers reject 10 seconds after their attempts,
  when the call has returned: rejections without handler, on which a Node process
  of version 15 or later ends by default.
\<close>

definition query_embedding :: "world \<Rightarrow> jsvalue \<Rightarrow> (error + vector) \<times> nat" where
  "query_embedding w q =
     (case q of
        String s \<Rightarrow> (generateEmbedding w 0 s 3 10000, 0)
      | _ \<Rightarrow> (Inr (generateMockEmbedding 1536 (random w 0)), if openai w then 3 else 0))"

text \<open>
  The body of the \<open>try\<close> of \<open>generateChatResponse\<close>.  It goes on with the value of the
  query embedding; the timers left behind are not its concern.
\<close>

definition generateChatResponse_body :: "world \<Rightarrow> jsvalue \<Rightarrow> error + chat_result" where
  "generateChatResponse_body w q =
     (case fst (query_embedding w q) of
        Inl error \<Rightarrow> Inl error
      | Inr queryEmbedding \<Rightarrow>
          (let searchResults =
                 (case search w GLOBAL_COLLECTION_NAME queryEmbedding 5 (7 / 10) 30000 of
                    Inr results \<Rightarrow> results
                  | Inl err \<Rightarrow> [])
           in case generateResponse w q searchResults of
                Inl error \<Rightarrow> Inl error
              | Inr response \<Rightarrow> Inr (ChatSuccess q response (map to_context searchResults))))"

definition generateChatResponse :: "world \<Rightarrow> jsvalue \<Rightarrow> chat_result" where
  "generateChatResponse w q =
     (case generateChatResponse_body w q of
        Inr result \<Rightarrow> result
      | Inl error \<Rightarrow>
          ChatFailure q (message error)
            (js ''I'm sorry, I encountered an error processing your query. Please try again.''))"

record collection_status =
  collection_name :: jsstring
  collection_exists :: bool
  vectorCount :: nat

record system_status =
  qdrantConnected :: bool
  openaiAvailable :: bool
  globalCollection :: collection_status
  status_indexedDocuments :: "indexed_document list"

text \<open>
  \<open>getSystemStatus\<close>.  Nothing in the body of its \<open>try\<close> throws: \<open>getCollection\<close>
  catches its own faults and answers \<open>null\<close>.  \<open>vectors_count || 0\<close> is 0 for an
  absent count.
\<close>

definition getSystemStatus :: "world \<Rightarrow> state \<Rightarrow> error + system_status" where
  "getSystemStatus w st =
     (let collectionInfo = getCollection w GLOBAL_COLLECTION_NAME;
          documentCount = (case collectionInfo of
                             Some info \<Rightarrow> (case vectors_count info of Some n \<Rightarrow> n | None \<Rightarrow> 0)
                           | None \<Rightarrow> 0);
          collectionExists = (case collectionInfo of Some info \<Rightarrow> True | None \<Rightarrow> False)
      in Inr \<lparr>qdrantConnected = initialized w,
              openaiAvailable = openai w,
              globalCollection =
                \<lparr>collection_name = GLOBAL_COLLECTION_NAME, collection_exists = collectionExists,
                 vectorCount = documentCount\<rparr>,
              status_indexedDocuments = map snd (indexedDocuments st)\<rparr>)"

section \<open>Routes\<close>

datatype chat_body = ChatBody chat_result | ErrorBody jsstring

datatype http_response = Http (status_code: nat) (body: chat_body)

definition is_success :: "chat_result \<Rightarrow> bool" where
  "is_success r = (case r of ChatSuccess q response contexts \<Rightarrow> True | ChatFailure q e response \<Rightarrow> False)"

text \<open>
  The handler of \<open>POST /rag/chat\<close>, applied to the field \<open>query\<close> of the request body
  (\<open>Undefined\<close> when the body has no such field).
\<close>

definition chat_route :: "world \<Rightarrow> jsvalue \<Rightarrow> http_response" where
  "chat_route w q =
     (if \<not> truthy q then Http 400 (ErrorBody (js ''Query is required''))
      else
        (let result = generateChatResponse w q
         in if is_success result then Http 200 (ChatBody result)
            else Http 500 (ChatBody result)))"

text \<open>
  The length of the paragraphs joined by blank lines: a bound on the length of the
  buffer of \<open>splitTextIntoChunks\<close> while no chunk has been closed.
\<close>

definition joined_length :: "jsstring list \<Rightarrow> nat" where
  "joined_length ps = sum_list (map length ps) + 2 * (length ps - 1)"


section \<open>Concrete inputs\<close>

text \<open>Inputs at which the properties below are evaluated.\<close>

definition no_uuid :: "nat \<Rightarrow> uuid" where
  "no_uuid k = []"



text \<open>
  A world without provider credential in which no collection exists yet, every
  database call succeeds, no file can be parsed and the clock stands still.
\<close>

definition quiet_world :: world where
  "quiet_world =
     \<lparr>openai = False,
      createEmbedding = (\<lambda>k input a. Pending),
      random = (\<lambda>k i. 0),
      uuidv4_chunk = (\<lambda>n. js ''0b8f4c56-7d1a-4c3e-9f20-5a6b7c8d9e0f''),
      uuidv4_document = js ''3f2b8c1e-5a4d-4e6f-8a9b-0c1d2e3f4a5b'',
      uuidv4_point = (\<lambda>n. js ''9a1b2c3d-4e5f-4a6b-8c7d-0e1f2a3b4c5d''),
      clock = (\<lambda>n. js ''2024-01-01T00:00:00.000Z''),
      read_pdf = (\<lambda>p. Inl (Error (js ''ENOENT: no such file or directory''))),
      read_docx = (\<lambda>p. Inl (Error (js ''ENOENT: no such file or directory''))),
      unlink_fault = None,
      initialized = True,
      getCollections = Inr [],
      client_createCollection = (\<lambda>n. Inr ()),
      client_upsert = (\<lambda>n i b. Inr ()),
      client_search = (\<lambda>n v l m. Pending),
      client_getCollection = (\<lambda>n. Inl (Error (js ''Not found''))),
      createChatCompletion = (\<lambda>m. Pending),
      number_to_string = (\<lambda>r. [])\<rparr>"



text \<open>A vector database that rejects every upsert.\<close>

definition upsert_down_world :: world where
  "upsert_down_world =
     quiet_world\<lparr>client_upsert := (\<lambda>n i b. Inl (Error (js ''upsert rejected'')))\<rparr>"

text \<open>An operating system that refuses to delete the uploaded file.\<close>

definition unlink_denied_world :: world where
  "unlink_denied_world =
     quiet_world\<lparr>unlink_fault := Some (Error (js ''EPERM: operation not permitted, unlink''))\<rparr>"

text \<open>A PDF whose text is two paragraphs of 600 characters each.\<close>

definition long_pdf_world :: world where
  "long_pdf_world =
     quiet_world\<lparr>read_pdf := (\<lambda>p. Inr (replicate 600 0x61 @ [LF, LF] @ replicate 600 0x62))\<rparr>"

text \<open>A database in which the global collection exists and the search rejects.\<close>

definition search_down_world :: world where
  "search_down_world =
     quiet_world
       \<lparr>getCollections := Inr [js ''global_documents''],
        client_search := (\<lambda>n v l m. Rejected (Error (js ''connection refused'')))\<rparr>"

definition demo_file :: uploaded_file where
  "demo_file =
     \<lparr>originalname = js ''notes.txt'', path = js ''/srv/uploads/document-1700000000000-42.txt''\<rparr>"

definition demo_state :: state where
  "demo_state =
     \<lparr>indexedDocuments = [], files = {js ''/srv/uploads/document-1700000000000-42.txt''}\<rparr>"

section \<open>Properties of the chunker\<close>

lemma length_trim_le: "length (trim s) \<le> length s"
proof -
  have "length (dropWhile is_space (rev (dropWhile is_space s))) \<le> length (rev (dropWhile is_space s))"
    by (rule length_dropWhile_le)
  also have "\<dots> \<le> length s" by (simp add: length_dropWhile_le)
  finally show ?thesis by (simp add: trim_def)
qed

lemma dropWhile_all: "(\<forall>c\<in>set (dropWhile P s). P c) \<longleftrightarrow> (\<forall>c\<in>set s. P c)"
  by (induction s) auto

lemma trim_nonempty_iff: "trim s \<noteq> [] \<longleftrightarrow> (\<exists>c\<in>set s. \<not> is_space c)"
proof -
  have "trim s = [] \<longleftrightarrow> (\<forall>c\<in>set (dropWhile is_space s). is_space c)"
    unfolding trim_def by (simp only: rev_is_Nil_conv dropWhile_eq_Nil_conv set_rev)
  then show ?thesis by (simp only: dropWhile_all) blast
qed

lemma length_slice_last: "0 < n \<Longrightarrow> length (slice_last n s) \<le> n"
  by (simp add: slice_last_def)

lemma rev_dropWhile_rev_prefix:
  "xs = rev (dropWhile P (rev xs)) @ rev (takeWhile P (rev xs))"
proof -
  have "rev xs = takeWhile P (rev xs) @ dropWhile P (rev xs)" by simp
  then have "rev (rev xs) = rev (takeWhile P (rev xs) @ dropWhile P (rev xs))" by (rule arg_cong)
  then show ?thesis by (simp only: rev_rev_ident rev_append)
qed

lemma match_sep_SomeD:
  assumes "match_sep s = Some n"
  shows "2 \<le> n" and "n \<le> length s" and "\<forall>c\<in>set (take n s). is_space c"
proof -
  from assms obtain cs where s: "s = LF # cs"
    by (cases s) (auto simp: match_sep_def split: if_splits)
  define tw where "tw = takeWhile is_space cs"
  define m where "m = rev (dropWhile (\<lambda>d. d \<noteq> LF) (rev tw))"
  from assms s have m: "m \<noteq> []" and n: "n = Suc (length m)"
    by (auto simp: match_sep_def Let_def m_def tw_def split: if_splits)
  have tw: "tw = m @ rev (takeWhile (\<lambda>d. d \<noteq> LF) (rev tw))"
    unfolding m_def by (rule rev_dropWhile_rev_prefix)
  have cs: "cs = tw @ dropWhile is_space cs" by (simp add: tw_def)
  obtain r where cs': "cs = m @ r"
    using cs tw by (metis append.assoc)
  from m n show "2 \<le> n" by (cases m) auto
  from cs' have "length m \<le> length cs" by simp
  with n s show "n \<le> length s" by simp
  have take: "take (length m) cs = m" using cs' by simp
  have "set m \<subseteq> set tw" using tw by (metis set_append Un_upper1)
  moreover have "\<forall>c\<in>set tw. is_space c" unfolding tw_def by (metis set_takeWhileD)
  ultimately have "\<forall>c\<in>set m. is_space c" by blast
  moreover have "is_space LF" by (simp add: is_space_def LF_def)
  ultimately show "\<forall>c\<in>set (take n s). is_space c" using take n s by simp
qed

lemma split_from_nonempty: "split_from cur s \<noteq> []"
  by (induction cur s rule: split_from.induct) (auto split: option.splits)

lemma joined_length_split_from:
  "joined_length (split_from cur s) \<le> length cur + length s"
proof (induction cur s rule: split_from.induct)
  case (1 cur)
  show ?case by (simp add: joined_length_def)
next
  case (2 cur c cs)
  show ?case
  proof (cases "match_sep (c # cs)")
    case None
    with 2 show ?thesis by simp
  next
    case (Some n)
    from match_sep_SomeD(1,2)[OF Some] have n: "2 \<le> n" "n \<le> length (c # cs)" .
    have ne: "split_from [] (drop n (c # cs)) \<noteq> []" by (rule split_from_nonempty)
    from 2(2)[OF Some] have "joined_length (split_from [] (drop n (c # cs))) \<le> length (c # cs) - n"
      by simp
    moreover have "joined_length (cur # split_from [] (drop n (c # cs)))
        = length cur + 2 + joined_length (split_from [] (drop n (c # cs)))"
      using ne by (cases "split_from [] (drop n (c # cs))") (simp_all add: joined_length_def)
    ultimately show ?thesis using Some n by simp
  qed
qed

lemma nonspace_split_from:
  "\<not> is_space x \<Longrightarrow> x \<in> set cur \<union> set s \<Longrightarrow> \<exists>p\<in>set (split_from cur s). x \<in> set p"
proof (induction cur s rule: split_from.induct)
  case (1 cur)
  then show ?case by simp
next
  case (2 cur c cs)
  show ?case
  proof (cases "match_sep (c # cs)")
    case None
    with 2 show ?thesis by auto
  next
    case (Some n)
    have "set (c # cs) = set (take n (c # cs)) \<union> set (drop n (c # cs))"
      by (metis append_take_drop_id set_append)
    with "2.prems" match_sep_SomeD(3)[OF Some]
    have "x \<in> set cur \<or> x \<in> set (drop n (c # cs))" by blast
    then show ?thesis
    proof
      assume "x \<in> set cur" with Some show ?thesis by simp
    next
      assume "x \<in> set (drop n (c # cs))"
      with "2.IH"(2)[OF Some "2.prems"(1)] Some show ?thesis by simp
    qed
  qed
qed

lemma length_join_paragraphs: "length (join_paragraphs ps) \<le> joined_length ps"
proof (induction ps rule: rev_induct)
  case Nil
  show ?case by (simp add: join_paragraphs_def joined_length_def)
next
  case (snoc p ps)
  then show ?case
    by (cases ps) (auto simp: join_paragraphs_def joined_length_def js_def)
qed

lemma set_join_paragraphs: "p \<in> set ps \<Longrightarrow> set p \<subseteq> set (join_paragraphs ps)"
  by (induction ps rule: rev_induct) (auto simp: join_paragraphs_def)

lemma joined_length_butlast: "joined_length ps \<le> joined_length (ps @ [p])"
  by (simp add: joined_length_def)

lemma foldl_chunk_step_small:
  "joined_length ps \<le> chunkSize \<Longrightarrow>
   foldl (chunk_step chunkSize overlap md uuidv4) ([], []) ps = ([], join_paragraphs ps)"
proof (induction ps rule: rev_induct)
  case Nil
  show ?case by (simp add: join_paragraphs_def)
next
  case (snoc p ps)
  from snoc.prems joined_length_butlast[of ps p] have "joined_length ps \<le> chunkSize" by simp
  with snoc.IH have st: "foldl (chunk_step chunkSize overlap md uuidv4) ([], []) ps = ([], join_paragraphs ps)" .
  have "length (join_paragraphs ps) + length p \<le> chunkSize \<or> join_paragraphs ps = []"
  proof (cases ps)
    case Nil then show ?thesis by (simp add: join_paragraphs_def)
  next
    case (Cons a as)
    then have "joined_length (ps @ [p]) = joined_length ps + 2 + length p"
      by (simp add: joined_length_def)
    with snoc.prems length_join_paragraphs[of ps] show ?thesis by simp
  qed
  then have step: "chunk_step chunkSize overlap md uuidv4 ([], join_paragraphs ps) p
      = ([], join_paragraphs ps @ ((if join_paragraphs ps \<noteq> [] then js ''\<newline>\<newline>'' else []) @ p))"
    by (auto simp: chunk_step_def)
  have "foldl (chunk_step chunkSize overlap md uuidv4) ([], []) (ps @ [p])
      = chunk_step chunkSize overlap md uuidv4 ([], join_paragraphs ps) p"
    by (simp only: foldl_append foldl_Cons foldl_Nil st)
  moreover have "join_paragraphs (ps @ [p])
      = join_paragraphs ps @ ((if join_paragraphs ps \<noteq> [] then js ''\<newline>\<newline>'' else []) @ p)"
    by (simp add: join_paragraphs_def)
  ultimately show ?case
    by (simp only: step)
qed

lemma chunk_step_bound:
  assumes ov: "0 < overlap" and p: "length p \<le> chunkSize"
    and chunks: "\<forall>c\<in>set chunks. length (content c) \<le> chunkSize + overlap + 1"
    and cur: "length cur \<le> chunkSize + overlap + 1"
    and step: "chunk_step chunkSize overlap md uuidv4 (chunks, cur) p = (chunks', cur')"
  shows "(\<forall>c\<in>set chunks'. length (content c) \<le> chunkSize + overlap + 1)
    \<and> length cur' \<le> chunkSize + overlap + 1"
proof (cases "length cur + length p > chunkSize \<and> length cur > 0")
  case True
  with step have c': "chunks' = chunks @ [\<lparr>chunk_id = uuidv4 (length chunks), content = trim cur, metadata = md\<rparr>]"
    and cur': "cur' = (if length cur > overlap then slice_last overlap cur else cur) @ js '' '' @ p"
    by (simp_all add: chunk_step_def)
  have "length (trim cur) \<le> chunkSize + overlap + 1"
    using length_trim_le[of cur] cur by simp
  with chunks c' have 1: "\<forall>c\<in>set chunks'. length (content c) \<le> chunkSize + overlap + 1"
    by auto
  have "length (if length cur > overlap then slice_last overlap cur else cur) \<le> overlap"
    using length_slice_last[OF ov, of cur] by simp
  with p cur' have "length cur' \<le> chunkSize + overlap + 1"
    by (simp add: js_def)
  with 1 show ?thesis by simp
next
  case False
  with step have c': "chunks' = chunks"
    and cur': "cur' = cur @ ((if cur \<noteq> [] then js ''\<newline>\<newline>'' else []) @ p)"
    by (auto simp: chunk_step_def split: if_splits)
  from False p ov have "length cur' \<le> chunkSize + overlap + 1"
    unfolding cur' by (cases "cur = []") (simp_all add: js_def)
  with chunks c' show ?thesis by simp
qed

lemma foldl_chunk_step_bound:
  assumes ov: "0 < overlap"
  shows "\<forall>p\<in>set ps. length p \<le> chunkSize \<Longrightarrow>
    \<forall>c\<in>set chunks. length (content c) \<le> chunkSize + overlap + 1 \<Longrightarrow>
    length cur \<le> chunkSize + overlap + 1 \<Longrightarrow>
    foldl (chunk_step chunkSize overlap md uuidv4) (chunks, cur) ps = (chunks', cur') \<Longrightarrow>
    (\<forall>c\<in>set chunks'. length (content c) \<le> chunkSize + overlap + 1)
      \<and> length cur' \<le> chunkSize + overlap + 1"
proof (induction ps arbitrary: chunks cur)
  case Nil
  then show ?case by simp
next
  case (Cons p ps)
  obtain chunks1 cur1 where s1: "chunk_step chunkSize overlap md uuidv4 (chunks, cur) p = (chunks1, cur1)"
    by (cases "chunk_step chunkSize overlap md uuidv4 (chunks, cur) p")
  from Cons.prems(1) have p: "length p \<le> chunkSize" and ps: "\<forall>p\<in>set ps. length p \<le> chunkSize"
    by simp_all
  from chunk_step_bound[OF ov p Cons.prems(2) Cons.prems(3) s1]
  have b1: "\<forall>c\<in>set chunks1. length (content c) \<le> chunkSize + overlap + 1"
    and b2: "length cur1 \<le> chunkSize + overlap + 1" by simp_all
  from Cons.prems(4) s1
  have "foldl (chunk_step chunkSize overlap md uuidv4) (chunks1, cur1) ps = (chunks', cur')"
    by simp
  from Cons.IH[OF ps b1 b2 this] show ?case .
qed


lemma split_from_set:
  "p \<in> set (split_from cur s) \<Longrightarrow> set p \<subseteq> set cur \<union> set s"
proof (induction cur s arbitrary: p rule: split_from.induct)
  case (1 cur)
  then show ?case by simp
next
  case (2 cur c cs)
  show ?case
  proof (cases "match_sep (c # cs)")
    case None
    with "2.prems" have "p \<in> set (split_from (cur @ [c]) cs)" by simp
    from "2.IH"(1)[OF None this] show ?thesis by auto
  next
    case (Some n)
    with "2.prems" have "p = cur \<or> p \<in> set (split_from [] (drop n (c # cs)))" by simp
    then show ?thesis
    proof
      assume "p = cur" then show ?thesis by auto
    next
      assume "p \<in> set (split_from [] (drop n (c # cs)))"
      from "2.IH"(2)[OF Some this] have "set p \<subseteq> set (drop n (c # cs))" by simp
      moreover have "set (drop n (c # cs)) \<subseteq> set (c # cs)" by (rule set_drop_subset)
      ultimately show ?thesis by blast
    qed
  qed
qed

lemma join_paragraphs_spaces:
  "\<forall>p\<in>set ps. \<forall>c\<in>set p. is_space c \<Longrightarrow> \<forall>c\<in>set (join_paragraphs ps). is_space c"
proof (induction ps rule: rev_induct)
  case Nil
  show ?case by (simp add: join_paragraphs_def)
next
  case (snoc p ps)
  have lf: "is_space 0x0A" by (simp add: is_space_def)
  from snoc have "\<forall>c\<in>set (join_paragraphs ps). is_space c" by simp
  moreover from snoc.prems have "\<forall>c\<in>set p. is_space c" by simp
  moreover have "join_paragraphs (ps @ [p])
      = join_paragraphs ps @ ((if join_paragraphs ps \<noteq> [] then js ''\<newline>\<newline>'' else []) @ p)"
    by (simp add: join_paragraphs_def)
  ultimately show ?case using lf by (auto simp: js_def)
qed

lemma splitTextIntoChunks_short:
  assumes "text \<noteq> []" and "length text \<le> chunkSize"
  shows "splitTextIntoChunks text chunkSize overlap md uuidv4 =
     (if trim (join_paragraphs (split_paragraphs text)) \<noteq> []
      then [\<lparr>chunk_id = uuidv4 0, content = trim (join_paragraphs (split_paragraphs text)),
              metadata = md\<rparr>]
      else [])"
proof -
  have "joined_length (split_paragraphs text) \<le> length text"
    using joined_length_split_from[of "[]" "text"] by (simp add: split_paragraphs_def)
  with assms(2) have "joined_length (split_paragraphs text) \<le> chunkSize" by simp
  from foldl_chunk_step_small[OF this]
  have "foldl (chunk_step chunkSize overlap md uuidv4) ([], []) (split_paragraphs text)
      = ([], join_paragraphs (split_paragraphs text))" .
  with assms(1) show ?thesis by (simp add: splitTextIntoChunks_def)
qed

lemma trim_join_nonempty:
  assumes "\<exists>c\<in>set text. \<not> is_space c"
  shows "trim (join_paragraphs (split_paragraphs text)) \<noteq> []"
proof -
  from assms obtain x where x: "x \<in> set text" "\<not> is_space x" by blast
  from nonspace_split_from[OF x(2), of "[]" "text"] x(1)
  obtain p where p: "p \<in> set (split_paragraphs text)" "x \<in> set p"
    by (auto simp: split_paragraphs_def)
  from set_join_paragraphs[OF p(1)] p(2) have "x \<in> set (join_paragraphs (split_paragraphs text))"
    by blast
  with x(2) show ?thesis by (subst trim_nonempty_iff) blast
qed

lemma trim_join_empty:
  assumes "\<forall>c\<in>set text. is_space c"
  shows "trim (join_paragraphs (split_paragraphs text)) = []"
proof -
  have "\<forall>p\<in>set (split_paragraphs text). \<forall>c\<in>set p. is_space c"
    using split_from_set[of _ "[]" "text"] assms by (auto simp: split_paragraphs_def)
  from join_paragraphs_spaces[OF this]
  have "\<not> (\<exists>c\<in>set (join_paragraphs (split_paragraphs text)). \<not> is_space c)" by blast
  then show ?thesis by (simp only: trim_nonempty_iff[symmetric] not_not)
qed


text \<open>
  Claim C3, as the code has it.  When \<open>overlap\<close> is at least 1 and no paragraph of the
  text is longer than \<open>chunkSize\<close>, no chunk of \<open>splitTextIntoChunks\<close> has a content
  longer than \<open>chunkSize + overlap + 1\<close>: a new buffer is the overlap, one space and the
  paragraph.
\<close>

theorem splitTextIntoChunks_length_bound:
  assumes "0 < overlap"
    and "\<forall>p\<in>set (split_paragraphs text). length p \<le> chunkSize"
  shows "\<forall>c\<in>set (splitTextIntoChunks text chunkSize overlap md uuidv4).
           length (content c) \<le> chunkSize + overlap + 1"
proof (cases "text = []")
  case True
  then show ?thesis by (simp add: splitTextIntoChunks_def)
next
  case False
  obtain chunks cur where f: "foldl (chunk_step chunkSize overlap md uuidv4) ([], [])
      (split_paragraphs text) = (chunks, cur)"
    by (cases "foldl (chunk_step chunkSize overlap md uuidv4) ([], []) (split_paragraphs text)")
  have "(\<forall>c\<in>set chunks. length (content c) \<le> chunkSize + overlap + 1)
      \<and> length cur \<le> chunkSize + overlap + 1"
    by (rule foldl_chunk_step_bound[OF assms(1) assms(2) _ _ f]) simp_all
  moreover have "length (trim cur) \<le> length cur" by (rule length_trim_le)
  ultimately show ?thesis using False f
    by (auto simp: splitTextIntoChunks_def)
qed

theorem splitTextIntoChunks_length_bound_witness:
  "map length (split_paragraphs (js ''hello\<newline>\<newline>world'')) = [5, 5]
   \<and> list_all (\<lambda>c. length (content c) \<le> 5 + 2 + 1)
        (splitTextIntoChunks (js ''hello\<newline>\<newline>world'') 5 2 () no_uuid)
   \<and> map (length \<circ> content) (splitTextIntoChunks (js ''hello\<newline>\<newline>world'') 5 2 () no_uuid) = [5, 8]"
proof -
  have ps: "split_paragraphs (js ''hello\<newline>\<newline>world'') = [js ''hello'', js ''world'']"
    by (simp add: split_paragraphs_def js_def match_sep_def LF_def is_space_def)
  have h1: "0 < (2::nat)" by simp
  have h2: "\<forall>p\<in>set (split_paragraphs (js ''hello\<newline>\<newline>world'')). length p \<le> 5"
    by (simp only: ps) (simp add: js_def)
  have "\<forall>c\<in>set (splitTextIntoChunks (js ''hello\<newline>\<newline>world'') 5 2 () no_uuid).
           length (content c) \<le> 5 + 2 + 1"
    by (rule splitTextIntoChunks_length_bound[OF h1 h2])
  then have "list_all (\<lambda>c. length (content c) \<le> 5 + 2 + 1)
        (splitTextIntoChunks (js ''hello\<newline>\<newline>world'') 5 2 () no_uuid)"
    by (simp only: list_all_iff)
  moreover have "map (length \<circ> content) (splitTextIntoChunks (js ''hello\<newline>\<newline>world'') 5 2 () no_uuid) = [5, 8]"
    by (simp add: splitTextIntoChunks_def split_paragraphs_def match_sep_def LF_def chunk_step_def
      js_def trim_def is_space_def slice_last_def)
  moreover have "map length (split_paragraphs (js ''hello\<newline>\<newline>world'')) = [5, 5]"
    by (simp only: ps) (simp add: js_def)
  ultimately show ?thesis by (simp only: simp_thms)
qed

text \<open>
  The bound \<open>chunkSize + overlap\<close> of claim C3 fails: with \<open>chunkSize = 5\<close> and
  \<open>overlap = 2\<close> the text of the two paragraphs \<open>hello\<close> and \<open>world\<close>, none longer than
  \<open>chunkSize\<close>, gives the chunks \<open>hello\<close> and \<open>lo world\<close>, the second of 8 code units.
  With \<open>overlap = 0\<close> the overlap taken is the whole buffer, and the chunks of the
  paragraphs \<open>a\<close>, \<open>b\<close>, \<open>c\<close> with \<open>chunkSize = 1\<close> have 1, 3 and 5 code units.
\<close>

theorem splitTextIntoChunks_bound_counterexample:
  "map length (split_paragraphs (js ''hello\<newline>\<newline>world'')) = [5, 5]
   \<and> map content (splitTextIntoChunks (js ''hello\<newline>\<newline>world'') 5 2 () no_uuid)
       = [js ''hello'', js ''lo world'']
   \<and> length (js ''lo world'') > 5 + 2
   \<and> map length (split_paragraphs (js ''a\<newline>\<newline>b\<newline>\<newline>c'')) = [1, 1, 1]
   \<and> map content (splitTextIntoChunks (js ''a\<newline>\<newline>b\<newline>\<newline>c'') 1 0 () no_uuid)
       = [js ''a'', js ''a b'', js ''a b c'']"
  by (simp add: splitTextIntoChunks_def split_paragraphs_def match_sep_def LF_def chunk_step_def
      js_def trim_def is_space_def slice_last_def)

text \<open>
  Claim C4, as the code has it.  \<open>splitTextIntoChunks\<close> of the empty string is empty.
  A text shorter than \<open>chunkSize\<close> with a character that is not white space gives
  exactly one chunk, whose content is the trimmed buffer of its paragraphs joined by
  blank lines; that is the trimmed text when the text has no blank-line separator.
  A text shorter than \<open>chunkSize\<close> of white space only gives no chunk.
\<close>

theorem splitTextIntoChunks_short_text:
  "splitTextIntoChunks [] chunkSize overlap md uuidv4 = []
   \<and> (length text < chunkSize \<and> (\<exists>c\<in>set text. \<not> is_space c) \<longrightarrow>
        map content (splitTextIntoChunks text chunkSize overlap md uuidv4)
          = [trim (join_paragraphs (split_paragraphs text))])
   \<and> (length text < chunkSize \<and> (\<exists>c\<in>set text. \<not> is_space c) \<and> split_paragraphs text = [text] \<longrightarrow>
        map content (splitTextIntoChunks text chunkSize overlap md uuidv4) = [trim text])
   \<and> (length text < chunkSize \<and> (\<forall>c\<in>set text. is_space c) \<longrightarrow>
        splitTextIntoChunks text chunkSize overlap md uuidv4 = [])"
proof (intro conjI impI)
  show "splitTextIntoChunks [] chunkSize overlap md uuidv4 = []"
    by (simp add: splitTextIntoChunks_def)
next
  assume a: "length text < chunkSize \<and> (\<exists>c\<in>set text. \<not> is_space c)"
  then have ne: "text \<noteq> []" and le: "length text \<le> chunkSize" by auto
  from a trim_join_nonempty have "trim (join_paragraphs (split_paragraphs text)) \<noteq> []" by blast
  then show "map content (splitTextIntoChunks text chunkSize overlap md uuidv4)
          = [trim (join_paragraphs (split_paragraphs text))]"
    by (simp add: splitTextIntoChunks_short[OF ne le])
next
  assume a: "length text < chunkSize \<and> (\<exists>c\<in>set text. \<not> is_space c) \<and> split_paragraphs text = [text]"
  then have ne: "text \<noteq> []" and le: "length text \<le> chunkSize" by auto
  from a have j: "join_paragraphs (split_paragraphs text) = text" by (simp add: join_paragraphs_def)
  from a trim_join_nonempty have "trim (join_paragraphs (split_paragraphs text)) \<noteq> []" by blast
  then show "map content (splitTextIntoChunks text chunkSize overlap md uuidv4) = [trim text]"
    by (simp add: splitTextIntoChunks_short[OF ne le] j)
next
  assume a: "length text < chunkSize \<and> (\<forall>c\<in>set text. is_space c)"
  show "splitTextIntoChunks text chunkSize overlap md uuidv4 = []"
  proof (cases "text = []")
    case True then show ?thesis by (simp add: splitTextIntoChunks_def)
  next
    case False
    from a have le: "length text \<le> chunkSize" by simp
    from a trim_join_empty have "trim (join_paragraphs (split_paragraphs text)) = []" by blast
    then show ?thesis by (simp add: splitTextIntoChunks_short[OF False le])
  qed
qed

theorem splitTextIntoChunks_short_text_witness:
  "map content (splitTextIntoChunks (js '' one\<newline>\<newline>\<newline>two '') 1000 200 () no_uuid) = [js ''one\<newline>\<newline>two'']
   \<and> map content (splitTextIntoChunks (js '' one two '') 1000 200 () no_uuid) = [js ''one two'']
   \<and> splitTextIntoChunks (js '' \<newline> '') 1000 200 () no_uuid = []"
proof -
  have sp: "\<not> is_space 0x6F" "is_space 0x20" "is_space 0x0A" by (simp_all add: is_space_def)
  have p1: "split_paragraphs (js '' one\<newline>\<newline>\<newline>two '') = [js '' one'', js ''two '']"
    by (simp add: split_paragraphs_def js_def match_sep_def LF_def is_space_def)
  have p2: "split_paragraphs (js '' one two '') = [js '' one two '']"
    by (simp add: split_paragraphs_def js_def match_sep_def LF_def is_space_def)
  have h1: "length (js '' one\<newline>\<newline>\<newline>two '') < 1000 \<and> (\<exists>c\<in>set (js '' one\<newline>\<newline>\<newline>two ''). \<not> is_space c)"
    using sp by (simp add: js_def)
  have h2: "length (js '' one two '') < 1000 \<and> (\<exists>c\<in>set (js '' one two ''). \<not> is_space c)
      \<and> split_paragraphs (js '' one two '') = [js '' one two '']"
    using sp p2 by (simp add: js_def)
  have h3: "length (js '' \<newline> '') < 1000 \<and> (\<forall>c\<in>set (js '' \<newline> ''). is_space c)"
    using sp by (simp add: js_def)
  note t = splitTextIntoChunks_short_text[of 1000 200 "()" no_uuid]
  from t[of "js '' one\<newline>\<newline>\<newline>two ''"] h1
  have "map content (splitTextIntoChunks (js '' one\<newline>\<newline>\<newline>two '') 1000 200 () no_uuid)
      = [trim (join_paragraphs (split_paragraphs (js '' one\<newline>\<newline>\<newline>two '')))]" by blast
  also have "\<dots> = [js ''one\<newline>\<newline>two'']"
    by (simp only: p1) (simp add: join_paragraphs_def trim_def js_def is_space_def)
  finally have r1: "map content (splitTextIntoChunks (js '' one\<newline>\<newline>\<newline>two '') 1000 200 () no_uuid) = [js ''one\<newline>\<newline>two'']" .
  from t[of "js '' one two ''"] h2
  have "map content (splitTextIntoChunks (js '' one two '') 1000 200 () no_uuid) = [trim (js '' one two '')]"
    by blast
  also have "\<dots> = [js ''one two'']" by (simp add: trim_def js_def is_space_def)
  finally have r2: "map content (splitTextIntoChunks (js '' one two '') 1000 200 () no_uuid) = [js ''one two'']" .
  from t[of "js '' \<newline> ''"] h3
  have r3: "splitTextIntoChunks (js '' \<newline> '') 1000 200 () no_uuid = []" by blast
  from r1 r2 r3 show ?thesis by (simp only: simp_thms)
qed

text \<open>
  Claim C4 as stated fails twice: the text of one space is not empty and shorter than
  \<open>chunkSize\<close> but gives no chunk, and in the text \<open>a\<close>, line feed, space, line feed, \<open>b\<close>
  the separator is rewritten, so that the content of the chunk is not the trimmed
  text.
\<close>

theorem splitTextIntoChunks_short_text_counterexample:
  "js '' '' \<noteq> [] \<and> length (js '' '') < 1000
   \<and> splitTextIntoChunks (js '' '') 1000 200 () no_uuid = []
   \<and> length (js ''a\<newline> \<newline>b'') < 1000
   \<and> map content (splitTextIntoChunks (js ''a\<newline> \<newline>b'') 1000 200 () no_uuid) = [js ''a\<newline>\<newline>b'']
   \<and> trim (js ''a\<newline> \<newline>b'') = js ''a\<newline> \<newline>b''
   \<and> js ''a\<newline>\<newline>b'' \<noteq> js ''a\<newline> \<newline>b''"
  by (simp add: splitTextIntoChunks_def split_paragraphs_def match_sep_def LF_def chunk_step_def
      js_def trim_def is_space_def)

section \<open>Properties of the embeddings\<close>













lemma embedding_attempt_no_key:
  "\<not> openai w \<Longrightarrow> embedding_attempt w k tx timeoutMs a = Inr (generateMockEmbedding 1536 (random w k))"
  by (simp add: embedding_attempt_def)


lemma attempt_loop_no_key:
  "\<not> openai w \<Longrightarrow> attempt_loop w k tx retries timeoutMs n = Inr (generateMockEmbedding 1536 (random w k))"
  by (subst attempt_loop.simps) (simp add: embedding_attempt_no_key)













section \<open>Properties of processFile\<close>

lemma truncate_embed_chunk: "chunk.truncate (embed_chunk w n c) = c"
  by (cases "generateEmbedding w n (content c) 3 10000")
     (simp_all add: embed_chunk_def chunk.truncate_def chunk.extend_def)

lemma map_indexed:
  "map (\<lambda>(index, c). f index c) (zip [0..<length xs] xs) = map (\<lambda>j. f j (xs ! j)) [0..<length xs]"
  by (rule nth_equalityI) simp_all

lemma batch_results:
  assumes "i < length chunks"
  shows "map (\<lambda>(index, c). embed_chunk w (i + index) c)
           (zip [0..<length (slice chunks i (min (i + 5) (length chunks)))]
                (slice chunks i (min (i + 5) (length chunks))))
         = map (\<lambda>n. embed_chunk w n (chunks ! n)) [i..<min (i + 5) (length chunks)]"
proof -
  define b where "b = slice chunks i (min (i + 5) (length chunks))"
  have len: "length b = min (i + 5) (length chunks) - i"
    using assms by (auto simp: b_def slice_def)
  have nth: "b ! j = chunks ! (i + j)" if "j < length b" for j
    using that assms by (simp add: b_def slice_def)
  have "map (\<lambda>(index, c). embed_chunk w (i + index) c) (zip [0..<length b] b)
      = map (\<lambda>j. embed_chunk w (i + j) (b ! j)) [0..<length b]"
    by (rule map_indexed)
  also have "\<dots> = map (\<lambda>j. embed_chunk w (i + j) (chunks ! (i + j))) [0..<length b]"
    using nth by (intro map_cong) simp_all
  also have "\<dots> = map (\<lambda>n. embed_chunk w n (chunks ! n)) (map (\<lambda>j. i + j) [0..<length b])"
    by (simp add: comp_def)
  also have "map (\<lambda>j. i + j) [0..<length b] = [i..<min (i + 5) (length chunks)]"
    using assms len by (simp add: map_add_upt add.commute)
  finally show ?thesis by (simp only: b_def)
qed

lemma embed_batches_eq:
  "embed_batches w chunks i acc = acc @ map (\<lambda>n. embed_chunk w n (chunks ! n)) [i..<length chunks]"
proof (induction w chunks i acc rule: embed_batches.induct)
  case (1 w chunks i acc)
  show ?case
  proof (cases "i < length chunks")
    case False
    then show ?thesis by (subst embed_batches.simps) simp
  next
    case True
    define batch where "batch = slice chunks i (min (i + 5) (length chunks))"
    define batchResults where
      "batchResults = map (\<lambda>(index, c). embed_chunk w (i + index) c) (zip [0..<length batch] batch)"
    have br: "batchResults = map (\<lambda>n. embed_chunk w n (chunks ! n)) [i..<min (i + 5) (length chunks)]"
      unfolding batchResults_def batch_def by (rule batch_results[OF True])
    have "embed_batches w chunks i acc = embed_batches w chunks (i + 5) (acc @ batchResults)"
      using True by (subst embed_batches.simps) (simp add: Let_def batch_def batchResults_def)
    also have "\<dots> = (acc @ batchResults) @ map (\<lambda>n. embed_chunk w n (chunks ! n)) [i + 5..<length chunks]"
      by (rule "1.IH"[OF True batch_def batchResults_def])
    also have "\<dots> = acc @ map (\<lambda>n. embed_chunk w n (chunks ! n))
        ([i..<min (i + 5) (length chunks)] @ [i + 5..<length chunks])"
      by (simp add: br)
    also have "[i..<min (i + 5) (length chunks)] @ [i + 5..<length chunks] = [i..<length chunks]"
    proof (cases "i + 5 \<le> length chunks")
      case le: True
      then obtain d where d: "length chunks = (i + 5) + d" using le_Suc_ex by blast
      have "[i..<(i + 5) + d] = [i..<i + 5] @ [i + 5..<(i + 5) + d]"
        by (rule upt_add_eq_append) simp
      then show ?thesis by (simp add: d)
    next
      case False
      then show ?thesis by (simp add: min_def)
    qed
    finally show ?thesis .
  qed
qed

lemma embed_batches_truncate: "map chunk.truncate (embed_batches w chunks 0 []) = chunks"
proof -
  have "map chunk.truncate (embed_batches w chunks 0 []) = map (\<lambda>n. chunks ! n) [0..<length chunks]"
    by (simp add: embed_batches_eq comp_def truncate_embed_chunk)
  then show ?thesis by (simp add: map_nth)
qed

lemma length_embed_batches: "length (embed_batches w chunks 0 []) = length chunks"
  by (simp add: embed_batches_eq)


lemma match_sep_not_LF: "c \<noteq> LF \<Longrightarrow> match_sep (c # cs) = None"
  by (simp add: match_sep_def)

lemma split_from_no_LF:
  "LF \<notin> set xs \<Longrightarrow> split_from cur (xs @ rest) = split_from (cur @ xs) rest"
proof (induction xs arbitrary: cur)
  case Nil
  show ?case by simp
next
  case (Cons x xs)
  then have "x \<noteq> LF" and "LF \<notin> set xs" by auto
  with Cons.IH[of "cur @ [x]"] show ?case
    by (simp add: match_sep_not_LF)
qed

lemma content_truncate: "content (chunk.truncate d) = content d"
  by (simp add: chunk.truncate_def)

lemma two_paragraphs:
  "split_paragraphs (replicate 600 0x61 @ [LF, LF] @ replicate 600 0x62)
     = [replicate 600 0x61, replicate 600 0x62]"
proof -
  have a: "LF \<notin> set (replicate 600 (0x61 :: code_unit))"
    and b: "LF \<notin> set (replicate 600 (0x62 :: code_unit))"
    by (simp_all add: LF_def)
  have nb: "\<not> is_space 0x62" by (simp add: is_space_def)
  have m: "match_sep (LF # LF # replicate 600 0x62) = Some 2"
    using nb by (simp add: match_sep_def takeWhile_replicate is_space_def LF_def)
  have "split_paragraphs (replicate 600 0x61 @ [LF, LF] @ replicate 600 0x62)
      = split_from (replicate 600 0x61) (LF # LF # replicate 600 0x62)"
    using split_from_no_LF[OF a, of "[]" "[LF, LF] @ replicate 600 0x62"]
    by (simp add: split_paragraphs_def)
  also have "\<dots> = replicate 600 0x61 # split_from [] (replicate 600 0x62 @ [])"
    using m by simp
  also have "split_from [] (replicate 600 0x62 @ []) = [replicate 600 0x62]"
    by (simp only: split_from_no_LF[OF b] append_Nil split_from.simps)
  finally show ?thesis .
qed

lemma trim_replicate: "\<not> is_space c \<Longrightarrow> trim (replicate n c) = replicate n c"
  by (simp add: trim_def dropWhile_replicate)

lemma two_chunks:
  "map content (splitTextIntoChunks (replicate 600 0x61 @ [LF, LF] @ replicate 600 0x62)
      1000 200 md uuidv4)
   = [replicate 600 0x61, replicate 200 0x61 @ js '' '' @ replicate 600 0x62]"
proof -
  have na: "\<not> is_space 0x61" and nb: "\<not> is_space 0x62" by (simp_all add: is_space_def)
  have s1: "chunk_step 1000 200 md uuidv4 ([], []) (replicate 600 0x61) = ([], replicate 600 0x61)"
    by (simp add: chunk_step_def)
  have s2: "chunk_step 1000 200 md uuidv4 ([], replicate 600 0x61) (replicate 600 0x62)
      = ([\<lparr>chunk_id = uuidv4 0, content = replicate 600 0x61, metadata = md\<rparr>],
         replicate 200 0x61 @ js '' '' @ replicate 600 0x62)"
    by (simp add: chunk_step_def trim_replicate[OF na] slice_last_def)
  have t: "trim (replicate 200 0x61 @ js '' '' @ replicate 600 0x62)
      = replicate 200 0x61 @ js '' '' @ replicate 600 0x62"
    using na nb by (simp add: trim_def js_def dropWhile_append1 dropWhile_replicate)
  have ne: "replicate 600 (0x61 :: code_unit) @ [LF, LF] @ replicate 600 0x62 \<noteq> []" by simp
  show ?thesis
    unfolding splitTextIntoChunks_def two_paragraphs
    by (simp only: ne if_False foldl_Cons foldl_Nil s1 s2 prod.case t) (simp add: js_def)
qed

lemma map_eq_length: "map f xs = ys \<Longrightarrow> length xs = length ys"
  by auto

text \<open>
  Claim C7.  \<open>processFile\<close> returns, and never throws.  When the extracted text
  chunks into more than \<open>maxChunks\<close> chunks, the result has exactly \<open>maxChunks\<close>
  elements and they are the first \<open>maxChunks\<close> chunks in their order; otherwise the
  result is all the chunks in their order.  Element \<open>n\<close> of the result is chunk \<open>n\<close>
  with the embedding of \<open>embed_chunk\<close>.
\<close>

theorem processFile_caps_chunks:
  "\<exists>docs. processFile w filePath ftype md maxChunks = Inr docs
     \<and> (length (splitTextIntoChunks (extractTextFromFile w filePath ftype) 1000 200 md (uuidv4_chunk w))
          > maxChunks \<longrightarrow>
        length docs = maxChunks
        \<and> map chunk.truncate docs
            = take maxChunks
                (splitTextIntoChunks (extractTextFromFile w filePath ftype) 1000 200 md (uuidv4_chunk w)))
     \<and> (length (splitTextIntoChunks (extractTextFromFile w filePath ftype) 1000 200 md (uuidv4_chunk w))
          \<le> maxChunks \<longrightarrow>
        map chunk.truncate docs
          = splitTextIntoChunks (extractTextFromFile w filePath ftype) 1000 200 md (uuidv4_chunk w))
     \<and> docs = map (\<lambda>n. embed_chunk w n (map chunk.truncate docs ! n)) [0..<length docs]"
proof -
  define chunks where
    "chunks = splitTextIntoChunks (extractTextFromFile w filePath ftype) 1000 200 md (uuidv4_chunk w)"
  define capped where "capped = (if length chunks > maxChunks then slice chunks 0 maxChunks else chunks)"
  define docs where "docs = embed_batches w capped 0 []"
  have p: "processFile w filePath ftype md maxChunks = Inr docs"
    by (simp add: processFile_def Let_def chunks_def capped_def docs_def)
  have t: "map chunk.truncate docs = capped" and l: "length docs = length capped"
    by (simp_all add: docs_def embed_batches_truncate length_embed_batches)
  have c1: "length chunks > maxChunks \<Longrightarrow> capped = take maxChunks chunks"
    by (simp add: capped_def slice_def)
  have c2: "length chunks \<le> maxChunks \<Longrightarrow> capped = chunks"
    by (simp add: capped_def)
  have d: "docs = map (\<lambda>n. embed_chunk w n (map chunk.truncate docs ! n)) [0..<length docs]"
    unfolding t l by (simp add: docs_def embed_batches_eq)
  from p t l c1 c2 d show ?thesis
    unfolding chunks_def[symmetric] by (intro exI[of _ docs]) auto
qed

theorem processFile_caps_chunks_witness:
  "map content (splitTextIntoChunks (extractTextFromFile long_pdf_world (js ''/srv/uploads/a.pdf'') (js ''pdf''))
      1000 200 () (uuidv4_chunk long_pdf_world))
     = [replicate 600 0x61, replicate 200 0x61 @ js '' '' @ replicate 600 0x62]
   \<and> (\<exists>docs. processFile long_pdf_world (js ''/srv/uploads/a.pdf'') (js ''pdf'') () 1 = Inr docs
         \<and> map content docs = [replicate 600 0x61])
   \<and> (\<exists>docs. processFile quiet_world (js ''/srv/uploads/a.txt'') (js ''text'') () 25 = Inr docs
         \<and> map content docs = [js ''[Unsupported file type: text]''])"
proof -
  have x1: "extractTextFromFile long_pdf_world (js ''/srv/uploads/a.pdf'') (js ''pdf'')
      = replicate 600 0x61 @ [LF, LF] @ replicate 600 0x62"
    by (simp add: extractTextFromFile_def long_pdf_world_def quiet_world_def)
  have c1: "map content (splitTextIntoChunks (extractTextFromFile long_pdf_world (js ''/srv/uploads/a.pdf'') (js ''pdf''))
      1000 200 () (uuidv4_chunk long_pdf_world))
     = [replicate 600 0x61, replicate 200 0x61 @ js '' '' @ replicate 600 0x62]"
    unfolding x1 by (rule two_chunks)
  then have l1: "length (splitTextIntoChunks (extractTextFromFile long_pdf_world (js ''/srv/uploads/a.pdf'') (js ''pdf''))
      1000 200 () (uuidv4_chunk long_pdf_world)) > 1"
    using map_eq_length[OF c1] by simp
  from processFile_caps_chunks[of long_pdf_world "js ''/srv/uploads/a.pdf''" "js ''pdf''" "()" 1] l1
  obtain docs1 where d1: "processFile long_pdf_world (js ''/srv/uploads/a.pdf'') (js ''pdf'') () 1 = Inr docs1"
    and t1: "map chunk.truncate docs1 = take 1 (splitTextIntoChunks
        (extractTextFromFile long_pdf_world (js ''/srv/uploads/a.pdf'') (js ''pdf''))
        1000 200 () (uuidv4_chunk long_pdf_world))"
    by blast
  have "map content docs1 = map content (map chunk.truncate docs1)"
    by (simp add: comp_def content_truncate)
  also have "\<dots> = take 1 [replicate 600 0x61, replicate 200 0x61 @ js '' '' @ replicate 600 0x62]"
    unfolding t1 by (simp only: take_map[symmetric] c1)
  finally have r1: "map content docs1 = [replicate 600 0x61]" by simp
  have x2: "extractTextFromFile quiet_world (js ''/srv/uploads/a.txt'') (js ''text'')
      = js ''[Unsupported file type: text]''"
    by (simp add: extractTextFromFile_def js_def)
  have c2: "map content (splitTextIntoChunks (extractTextFromFile quiet_world (js ''/srv/uploads/a.txt'') (js ''text''))
      1000 200 () (uuidv4_chunk quiet_world)) = [js ''[Unsupported file type: text]'']"
    unfolding x2
    by (simp add: splitTextIntoChunks_def split_paragraphs_def match_sep_def LF_def chunk_step_def
        js_def trim_def is_space_def)
  then have l2: "length (splitTextIntoChunks (extractTextFromFile quiet_world (js ''/srv/uploads/a.txt'') (js ''text''))
      1000 200 () (uuidv4_chunk quiet_world)) \<le> 25"
    using map_eq_length[OF c2] by simp
  from processFile_caps_chunks[of quiet_world "js ''/srv/uploads/a.txt''" "js ''text''" "()" 25] l2
  obtain docs2 where d2: "processFile quiet_world (js ''/srv/uploads/a.txt'') (js ''text'') () 25 = Inr docs2"
    and t2: "map chunk.truncate docs2 = splitTextIntoChunks
        (extractTextFromFile quiet_world (js ''/srv/uploads/a.txt'') (js ''text''))
        1000 200 () (uuidv4_chunk quiet_world)"
    by blast
  have "map content docs2 = map content (map chunk.truncate docs2)"
    by (simp add: comp_def content_truncate)
  also have "\<dots> = [js ''[Unsupported file type: text]'']"
    unfolding t2 by (rule c2)
  finally have r2: "map content docs2 = [js ''[Unsupported file type: text]'']" .
  have e1: "\<exists>docs. processFile long_pdf_world (js ''/srv/uploads/a.pdf'') (js ''pdf'') () 1 = Inr docs
         \<and> map content docs = [replicate 600 0x61]"
    using d1 r1 by (intro exI[of _ docs1]) simp
  have e2: "\<exists>docs. processFile quiet_world (js ''/srv/uploads/a.txt'') (js ''text'') () 25 = Inr docs
         \<and> map content docs = [js ''[Unsupported file type: text]'']"
    using d2 r2 by (intro exI[of _ docs2]) simp
  from c1 e1 e2 show ?thesis by (intro conjI)
qed


section \<open>Properties of the vector store\<close>

lemma search_never_throws: "\<exists>r. search w c q l m t = Inr r"
  by (cases "search_body w c q l m t") (simp_all add: search_def)

text \<open>
  Claim C6.  \<open>search\<close> never throws.  On a collection that does not exist it returns
  the empty list, and so it does when the list of collections cannot be read, when
  the lookup rejects or does not answer before the timeout, and when a hit cannot
  be transformed.
\<close>

theorem search_degrades_to_empty:
  "(\<exists>r. search w c q l m t = Inr r)
   \<and> (getCollections w = Inr collections \<and> c \<notin> set collections \<longrightarrow> search w c q l m t = Inr [])
   \<and> (isl (getCollections w) \<longrightarrow> search w c q l m t = Inr [])
   \<and> ((\<forall>hits. client_search w c q l m \<noteq> Fulfilled hits) \<longrightarrow> search w c q l m t = Inr [])
   \<and> (client_search w c q l m = Fulfilled hits \<and> None \<in> set (map hit_payload hits) \<longrightarrow>
        search w c q l m t = Inr [])"
proof (intro conjI impI)
  show "\<exists>r. search w c q l m t = Inr r" by (rule search_never_throws)
next
  assume "getCollections w = Inr collections \<and> c \<notin> set collections"
  then show "search w c q l m t = Inr []" by (simp add: search_def search_body_def)
next
  assume "isl (getCollections w)"
  then show "search w c q l m t = Inr []"
    by (cases "getCollections w") (simp_all add: search_def search_body_def)
next
  assume a: "\<forall>hits. client_search w c q l m \<noteq> Fulfilled hits"
  then have "isl (race_timeout (client_search w c q l m) (js ''Search operation'') t)"
    by (cases "client_search w c q l m") (simp_all add: race_timeout_def)
  then show "search w c q l m t = Inr []"
    by (auto simp: search_def search_body_def split: sum.splits)
next
  assume a: "client_search w c q l m = Fulfilled hits \<and> None \<in> set (map hit_payload hits)"
  have "None \<in> set (map hit_payload hs) \<Longrightarrow> isl (map_result transform_hit hs)" for hs
    by (induction hs) (auto simp: transform_hit_def split: sum.splits option.splits)
  with a have "isl (map_result transform_hit hits)" by blast
  with a show "search w c q l m t = Inr []"
    by (auto simp: search_def search_body_def race_timeout_def split: sum.splits)
qed

theorem search_degrades_to_empty_witness:
  "search quiet_world (js ''global_documents'') [] 5 (7 / 10) 30000 = Inr []
   \<and> search search_down_world (js ''global_documents'') [] 5 (7 / 10) 30000 = Inr []"
proof -
  have h1: "getCollections quiet_world = Inr [] \<and> js ''global_documents'' \<notin> set []"
    by (simp add: quiet_world_def)
  have h2: "\<forall>hits. client_search search_down_world (js ''global_documents'') [] 5 (7 / 10) \<noteq> Fulfilled hits"
    by (simp add: search_down_world_def quiet_world_def)
  from search_degrades_to_empty[of quiet_world "js ''global_documents''" "[]" 5 "7 / 10" 30000 "[]"] h1
  have "search quiet_world (js ''global_documents'') [] 5 (7 / 10) 30000 = Inr []" by blast
  moreover
  from search_degrades_to_empty[of search_down_world "js ''global_documents''" "[]" 5 "7 / 10" 30000] h2
  have "search search_down_world (js ''global_documents'') [] 5 (7 / 10) 30000 = Inr []" by blast
  ultimately show ?thesis by blast
qed

section \<open>Properties of the RAG service\<close>

lemma mem_map_set: "(k, v) \<in> set (map_set k v kvs)"
  by (induction kvs) auto

lemma indexDocument_files:
  "files (fst (indexDocument w st file))
     = (case unlinkAsync w (path file) (files st) of Inr remaining \<Rightarrow> remaining | Inl e \<Rightarrow> files st)"
  by (simp add: indexDocument_def index_processed_def processFile_def Let_def split: sum.splits)

lemma indexDocument_result:
  "snd (indexDocument w st file)
     = IndexSuccess (uuidv4_document w) GLOBAL_COLLECTION_NAME
         (length (case processFile w (path file)
                    (file_type_of (drop 1 (to_lower (extname (originalname file)))))
                    \<lparr>source_file = originalname file,
                     file_type = file_type_of (drop 1 (to_lower (extname (originalname file)))),
                     created_at = clock w 0, document_id = uuidv4_document w\<rparr> 25 of
                  Inr docs \<Rightarrow> docs | Inl e \<Rightarrow> []))
         (originalname file)"
  by (simp add: indexDocument_def index_processed_def processFile_def Let_def split: sum.splits)

lemma indexDocument_registry:
  "indexedDocuments (fst (indexDocument w st file))
     = map_set (uuidv4_document w)
         \<lparr>documentId = uuidv4_document w,
          chunksCount = length (case processFile w (path file)
                    (file_type_of (drop 1 (to_lower (extname (originalname file)))))
                    \<lparr>source_file = originalname file,
                     file_type = file_type_of (drop 1 (to_lower (extname (originalname file)))),
                     created_at = clock w 0, document_id = uuidv4_document w\<rparr> 25 of
                  Inr docs \<Rightarrow> docs | Inl e \<Rightarrow> []),
          filename = originalname file,
          fileType = file_type_of (drop 1 (to_lower (extname (originalname file)))),
          createdAt = clock w 1\<rparr>
         (indexedDocuments st)"
  by (simp add: indexDocument_def index_processed_def processFile_def Let_def split: sum.splits)

lemma demo_file_type:
  "file_type_of (drop 1 (to_lower (extname (originalname demo_file)))) = js ''text''"
  by (simp add: demo_file_def extname_def basename_def to_lower_def file_type_of_def js_def
      SLASH_def DOT_def)

lemma demo_chunks:
  "map content (splitTextIntoChunks (extractTextFromFile w p (js ''text'')) 1000 200 md uuidv4)
     = [js ''[Unsupported file type: text]'']"
proof -
  have x: "extractTextFromFile w p (js ''text'') = js ''[Unsupported file type: text]''"
    by (simp add: extractTextFromFile_def js_def)
  show ?thesis
    unfolding x
    by (simp add: splitTextIntoChunks_def split_paragraphs_def match_sep_def LF_def chunk_step_def
        js_def trim_def is_space_def)
qed

lemma demo_processed:
  "\<exists>d. processFile w p (js ''text'') md 25 = Inr [d]"
proof -
  define chunks where "chunks = splitTextIntoChunks (extractTextFromFile w p (js ''text'')) 1000 200 md (uuidv4_chunk w)"
  have "length chunks = length [js ''[Unsupported file type: text]'']"
    unfolding chunks_def by (rule map_eq_length[OF demo_chunks])
  then have l: "length chunks = 1" by simp
  then have "processFile w p (js ''text'') md 25 = Inr (embed_batches w chunks 0 [])"
    by (simp add: processFile_def Let_def chunks_def)
  moreover have "length (embed_batches w chunks 0 []) = 1"
    using l by (simp add: length_embed_batches)
  then obtain d where "embed_batches w chunks 0 [] = [d]"
    by (cases "embed_batches w chunks 0 []") auto
  ultimately show ?thesis by simp
qed

lemma addDocuments_upsert_down:
  "addDocuments upsert_down_world GLOBAL_COLLECTION_NAME [d] = AddFailure (js ''upsert rejected'')"
  by (simp add: addDocuments_def createCollection_def upsert_down_world_def quiet_world_def
      upsert_batches.simps)

text \<open>
  The \<open>catch\<close> of \<open>indexDocument\<close>: were \<open>processFile\<close> to throw, the result would be
  the failure with the message of the fault, and neither the files nor the registry
  would change.
\<close>

lemma index_processed_thrown:
  "index_processed w st file ftype docId (Inl e) = (st, IndexFailure (message e))"
  by (simp add: index_processed_def)

text \<open>
  Claim C1 fails on the code.  In a world whose vector database rejects every
  upsert, \<open>processFile\<close> gives one embedded chunk for the uploaded text file,
  \<open>addDocuments\<close> answers with the failure \<open>upsert rejected\<close>, and \<open>indexDocument\<close>
  nevertheless returns the success result with \<open>documentCount = 1\<close> and records the
  document in the registry: \<open>storeResult\<close> is never read.
\<close>

theorem indexDocument_masks_upsert_failure:
  "(\<exists>docs. processFile upsert_down_world (path demo_file) (js ''text'') md 25 = Inr docs
       \<and> length docs = 1
       \<and> addDocuments upsert_down_world GLOBAL_COLLECTION_NAME docs = AddFailure (js ''upsert rejected''))
   \<and> snd (indexDocument upsert_down_world demo_state demo_file)
       = IndexSuccess (js ''3f2b8c1e-5a4d-4e6f-8a9b-0c1d2e3f4a5b'') (js ''global_documents'') 1
           (js ''notes.txt'')
   \<and> map (chunksCount \<circ> snd) (indexedDocuments (fst (indexDocument upsert_down_world demo_state demo_file)))
       = [1]"
proof -
  obtain d where d: "processFile upsert_down_world (path demo_file) (js ''text'') md 25 = Inr [d]"
    using demo_processed[of upsert_down_world "path demo_file" md] by auto
  have a: "\<exists>docs. processFile upsert_down_world (path demo_file) (js ''text'') md 25 = Inr docs
       \<and> length docs = 1
       \<and> addDocuments upsert_down_world GLOBAL_COLLECTION_NAME docs = AddFailure (js ''upsert rejected'')"
    using d addDocuments_upsert_down by (intro exI[of _ "[d]"]) simp
  obtain e where e: "processFile upsert_down_world (path demo_file) (js ''text'')
        \<lparr>source_file = originalname demo_file, file_type = js ''text'',
         created_at = clock upsert_down_world 0, document_id = uuidv4_document upsert_down_world\<rparr> 25
      = Inr [e]"
    by (rule exE[OF demo_processed])
  have b: "snd (indexDocument upsert_down_world demo_state demo_file)
       = IndexSuccess (js ''3f2b8c1e-5a4d-4e6f-8a9b-0c1d2e3f4a5b'') (js ''global_documents'') 1
           (js ''notes.txt'')"
    unfolding indexDocument_result demo_file_type e
    by (simp add: upsert_down_world_def quiet_world_def GLOBAL_COLLECTION_NAME_def demo_file_def)
  have c: "map (chunksCount \<circ> snd) (indexedDocuments (fst (indexDocument upsert_down_world demo_state demo_file)))
       = [1]"
    unfolding indexDocument_registry demo_file_type e
    by (simp add: demo_state_def)
  from a b c show ?thesis by (intro conjI)
qed

text \<open>
  Claim C2, as the code has it.  Whatever the outside world does during the call
  (the file cannot be parsed, the provider fails, the vector database fails),
  \<open>indexDocument\<close> unlinks the temporary file before it returns: when the unlink is
  not refused by the operating system, the files after the call are the files before
  it without the uploaded one.
\<close>

theorem indexDocument_unlinks_file:
  assumes "unlink_fault w = None"
  shows "files (fst (indexDocument w st file)) = files st - {path file}
    \<and> path file \<notin> files (fst (indexDocument w st file))"
  using assms by (auto simp: indexDocument_files unlinkAsync_def)


theorem indexDocument_unlinks_file_witness:
  "unlink_fault upsert_down_world = None
   \<and> files demo_state = {path demo_file}
   \<and> files (fst (indexDocument upsert_down_world demo_state demo_file)) = {}"
proof -
  have h: "unlink_fault upsert_down_world = None"
    by (simp add: upsert_down_world_def quiet_world_def)
  have f: "files demo_state = {path demo_file}"
    by (simp add: demo_state_def demo_file_def)
  from indexDocument_unlinks_file[OF h, of demo_state demo_file]
  have "files (fst (indexDocument upsert_down_world demo_state demo_file)) = files demo_state - {path demo_file}"
    by blast
  with h f show ?thesis by simp
qed

text \<open>
  Claim C2 as stated fails when the unlink itself is refused: the fault is caught
  and logged, the call returns its success result and the uploaded file is still
  there.
\<close>

theorem indexDocument_unlink_counterexample:
  "path demo_file \<in> files demo_state
   \<and> snd (indexDocument unlink_denied_world demo_state demo_file)
       = IndexSuccess (js ''3f2b8c1e-5a4d-4e6f-8a9b-0c1d2e3f4a5b'') (js ''global_documents'') 1
           (js ''notes.txt'')
   \<and> path demo_file \<in> files (fst (indexDocument unlink_denied_world demo_state demo_file))"
proof -
  have f: "path demo_file \<in> files demo_state"
    by (simp add: demo_state_def demo_file_def)
  obtain e where e: "processFile unlink_denied_world (path demo_file) (js ''text'')
        \<lparr>source_file = originalname demo_file, file_type = js ''text'',
         created_at = clock unlink_denied_world 0, document_id = uuidv4_document unlink_denied_world\<rparr> 25
      = Inr [e]"
    by (rule exE[OF demo_processed])
  have b: "snd (indexDocument unlink_denied_world demo_state demo_file)
       = IndexSuccess (js ''3f2b8c1e-5a4d-4e6f-8a9b-0c1d2e3f4a5b'') (js ''global_documents'') 1
           (js ''notes.txt'')"
    unfolding indexDocument_result demo_file_type e
    by (simp add: unlink_denied_world_def quiet_world_def GLOBAL_COLLECTION_NAME_def demo_file_def)
  have c: "files (fst (indexDocument unlink_denied_world demo_state demo_file)) = files demo_state"
    using f by (simp add: indexDocument_files unlinkAsync_def unlink_denied_world_def quiet_world_def)
  from f b c show ?thesis by simp
qed

text \<open>
  Claim C8.  When \<open>indexDocument\<close> returns a success result, \<open>getSystemStatus\<close> on the
  state it leaves, in any world, succeeds and lists among \<open>indexedDocuments\<close> an entry
  with the document id and the file name of the result, whose \<open>chunksCount\<close> is the
  \<open>documentCount\<close> of the result and the number of chunks \<open>processFile\<close> returned.
\<close>

theorem index_then_status:
  assumes "indexDocument w st file = (st', IndexSuccess docId cname n fname)"
  shows "\<exists>s. getSystemStatus w' st' = Inr s
     \<and> (\<exists>d\<in>set (status_indexedDocuments s).
           documentId d = docId \<and> chunksCount d = n \<and> filename d = fname)
     \<and> (\<exists>docs. processFile w (path file)
            (file_type_of (drop 1 (to_lower (extname (originalname file)))))
            \<lparr>source_file = originalname file,
             file_type = file_type_of (drop 1 (to_lower (extname (originalname file)))),
             created_at = clock w 0, document_id = uuidv4_document w\<rparr> 25 = Inr docs
          \<and> n = length docs)"
proof -
  define ftype where "ftype = file_type_of (drop 1 (to_lower (extname (originalname file))))"
  define md where "md = \<lparr>source_file = originalname file, file_type = ftype,
      created_at = clock w 0, document_id = uuidv4_document w\<rparr>"
  obtain docs where docs: "processFile w (path file) ftype md 25 = Inr docs"
    by (simp add: processFile_def Let_def)
  define entry where "entry = \<lparr>documentId = uuidv4_document w, chunksCount = length docs,
      filename = originalname file, fileType = ftype, createdAt = clock w 1\<rparr>"
  from assms have st': "st' = fst (indexDocument w st file)"
    and res: "snd (indexDocument w st file) = IndexSuccess docId cname n fname"
    by simp_all
  from res have ids: "docId = uuidv4_document w" "n = length docs" "fname = originalname file"
    unfolding indexDocument_result ftype_def[symmetric] md_def[symmetric] docs by simp_all
  have reg: "indexedDocuments st' = map_set (uuidv4_document w) entry (indexedDocuments st)"
    unfolding st' indexDocument_registry ftype_def[symmetric] md_def[symmetric] docs entry_def
    by simp
  have "(uuidv4_document w, entry) \<in> set (indexedDocuments st')"
    unfolding reg by (rule mem_map_set)
  then have "entry \<in> set (map snd (indexedDocuments st'))" by force
  moreover have "documentId entry = docId \<and> chunksCount entry = n \<and> filename entry = fname"
    by (simp add: entry_def ids)
  ultimately have "\<exists>d\<in>set (map snd (indexedDocuments st')).
      documentId d = docId \<and> chunksCount d = n \<and> filename d = fname" by blast
  moreover have "\<exists>docs'. processFile w (path file) ftype md 25 = Inr docs' \<and> n = length docs'"
    using docs ids by blast
  ultimately show ?thesis
    unfolding ftype_def md_def by (simp add: getSystemStatus_def Let_def)
qed


theorem index_then_status_witness:
  "\<exists>s. getSystemStatus search_down_world (fst (indexDocument quiet_world demo_state demo_file)) = Inr s
     \<and> map documentId (status_indexedDocuments s) = [js ''3f2b8c1e-5a4d-4e6f-8a9b-0c1d2e3f4a5b'']
     \<and> map chunksCount (status_indexedDocuments s) = [1]
     \<and> map filename (status_indexedDocuments s) = [js ''notes.txt'']"
proof -
  obtain e where e: "processFile quiet_world (path demo_file) (js ''text'')
        \<lparr>source_file = originalname demo_file, file_type = js ''text'',
         created_at = clock quiet_world 0, document_id = uuidv4_document quiet_world\<rparr> 25
      = Inr [e]"
    by (rule exE[OF demo_processed])
  have b: "snd (indexDocument quiet_world demo_state demo_file)
       = IndexSuccess (js ''3f2b8c1e-5a4d-4e6f-8a9b-0c1d2e3f4a5b'') (js ''global_documents'') 1
           (js ''notes.txt'')"
    unfolding indexDocument_result demo_file_type e
    by (simp add: quiet_world_def GLOBAL_COLLECTION_NAME_def demo_file_def)
  have one: "length (indexedDocuments (fst (indexDocument quiet_world demo_state demo_file))) = 1"
    unfolding indexDocument_registry by (simp add: demo_state_def)
  have eq: "indexDocument quiet_world demo_state demo_file
      = (fst (indexDocument quiet_world demo_state demo_file),
         IndexSuccess (js ''3f2b8c1e-5a4d-4e6f-8a9b-0c1d2e3f4a5b'') (js ''global_documents'') 1
           (js ''notes.txt''))"
    using b by (metis prod.collapse)
  from index_then_status[OF eq, of search_down_world]
  obtain s d where s: "getSystemStatus search_down_world (fst (indexDocument quiet_world demo_state demo_file)) = Inr s"
    and d: "d \<in> set (status_indexedDocuments s)"
      "documentId d = js ''3f2b8c1e-5a4d-4e6f-8a9b-0c1d2e3f4a5b''" "chunksCount d = 1"
      "filename d = js ''notes.txt''"
    by blast
  from s have "length (status_indexedDocuments s) = 1"
    using one by (auto simp: getSystemStatus_def Let_def)
  with d(1) have "status_indexedDocuments s = [d]"
    by (cases "status_indexedDocuments s") auto
  with s d show ?thesis by (intro exI[of _ s]) simp
qed


text \<open>
  In every world \<open>indexDocument\<close> returns the success result: \<open>extractTextFromFile\<close>,
  \<open>generateEmbedding\<close> and \<open>addDocuments\<close> absorb their faults, so nothing reaches the
  \<open>catch\<close> of \<open>indexDocument\<close>.
\<close>

theorem indexDocument_never_fails:
  "\<exists>n. snd (indexDocument w st file)
          = IndexSuccess (uuidv4_document w) GLOBAL_COLLECTION_NAME n (originalname file)"
  by (simp add: indexDocument_def index_processed_def processFile_def Let_def)

section \<open>Properties of the chat route\<close>


lemma query_embedding_String:
  "query_embedding w (String s) = (generateEmbedding w 0 s 3 10000, 0)"
  by (simp add: query_embedding_def)



lemma chat_route_whitespace_example:
  "chat_route quiet_world (String (js '' ''))
     = Http 200 (ChatBody (ChatSuccess (String (js '' ''))
         (js ''I don't have enough information to answer this question as no context was provided.'')
         []))
   \<and> chat_route quiet_world (String [])
     = Http 400 (ErrorBody (js ''Query is required''))"
proof -
  have e: "generateEmbedding quiet_world 0 (js '' '') 3 10000
      = Inr (generateMockEmbedding 1536 (random quiet_world 0))"
    by (simp add: generateEmbedding_def attempt_loop_no_key quiet_world_def)
  have s: "search quiet_world GLOBAL_COLLECTION_NAME v 5 (7 / 10) 30000 = Inr []" for v
    by (simp add: search_def search_body_def quiet_world_def)
  have g: "generateResponse quiet_world (String (js '' '')) []
      = Inr (js ''I don't have enough information to answer this question as no context was provided.'')"
    by (simp add: generateResponse_def generateResponse_body_def generateMockResponse_def
        quiet_world_def)
  have t: "truthy (String (js '' ''))" by (simp add: truthy_def js_def)
  have "chat_route quiet_world (String (js '' ''))
     = Http 200 (ChatBody (ChatSuccess (String (js '' ''))
         (js ''I don't have enough information to answer this question as no context was provided.'')
         []))"
    using t by (simp add: chat_route_def generateChatResponse_def generateChatResponse_body_def
        query_embedding_String e s g Let_def is_success_def)
  moreover have "chat_route quiet_world (String []) = Http 400 (ErrorBody (js ''Query is required''))"
    by (simp add: chat_route_def truthy_def)
  ultimately show ?thesis by simp
qed




end
